theory Spec2Isabelle
  imports Main
begin


section \<open>Name normalization\<close>

text \<open>
  Names are Python strings. They are modelled as \<open>string\<close>, a list of 8-bit characters
  (code points below 256). \<open>str.lower\<close> changes, among these, the ASCII capitals and the
  Latin-1 capitals (192 to 222 except the multiplication sign 215), each moved up by 32.
\<close>

definition py_lower_char :: "char \<Rightarrow> char" where
  "py_lower_char c =
     (let n = (of_char c :: nat)
      in if (65 \<le> n \<and> n \<le> 90) \<or> (192 \<le> n \<and> n \<le> 222 \<and> n \<noteq> 215)
         then char_of (n + 32) else c)"

definition py_lower :: "string \<Rightarrow> string" where
  "py_lower s = map py_lower_char s"

text \<open>The character class \<open>[a-z0-9-]\<close>; the first \<open>re.sub\<close> removes every other character.\<close>

definition name_char :: "char \<Rightarrow> bool" where
  "name_char c =
     (let n = (of_char c :: nat)
      in (97 \<le> n \<and> n \<le> 122) \<or> (48 \<le> n \<and> n \<le> 57) \<or> c = CHR ''-'')"

text \<open>\<open>str.strip('-')\<close>: leading and trailing dashes are removed.\<close>

definition strip_dash :: "string \<Rightarrow> string" where
  "strip_dash s =
     rev (dropWhile (\<lambda>c. c = CHR ''-'') (rev (dropWhile (\<lambda>c. c = CHR ''-'') s)))"

text \<open>\<open>re.sub(r'-+', '-', s)\<close>: every maximal run of dashes becomes one dash.\<close>

fun collapse_dashes :: "string \<Rightarrow> string" where
  "collapse_dashes [] = []"
| "collapse_dashes [c] = [c]"
| "collapse_dashes (c # d # s) =
     (if c = CHR ''-'' \<and> d = CHR ''-'' then collapse_dashes (d # s)
      else c # collapse_dashes (d # s))"

text \<open>\<open>K8sManager._sanitize_name\<close> (the message it prints is not modelled).\<close>

definition sanitize_name :: "string \<Rightarrow> string" where
  "sanitize_name name =
     collapse_dashes (strip_dash (filter name_char (py_lower name)))"

section \<open>The platform\<close>

text \<open>
  The repository drives a remote cluster through the Kubernetes client library, which is
  not part of it. The cluster is modelled as the set of resources it holds, each a kind
  and a name (every namespaced call of the source uses the one namespace
  \<open>K8S_NAMESPACE\<close>, so the namespace is left out). Resource bodies are not modelled:
  the properties below are about which resources exist and under which names.
\<close>

datatype kind =
  Deployment | Service | Ingress | ConfigMap | PersistentVolume | PersistentVolumeClaim
  | Job | Pod

datatype verb = Read | Create | Patch | Delete | ListPods | ReadLog

type_synonym request = "verb \<times> kind \<times> string"

text \<open>
  The exceptions of the source. \<open>ApiException\<close> carries the HTTP status. The source
  raises plain \<open>Exception\<close> values told apart by their message only (the messages are
  Korean text around the resource name); each message is a constructor here:
  \<open>PvcBindTimeout\<close> for the claim that did not bind in time, \<open>JobFailed\<close> for the
  failed task and \<open>JobTimeout\<close> for the task that did not finish in time.
  \<open>HTTPException\<close> carries the status code and, as its detail, the error it wraps.
\<close>

datatype error =
  ApiException nat
  | PvcBindTimeout string
  | JobFailed string
  | JobTimeout string
  | AttributeError string
  | TypeError string
  | HTTPException nat error

text \<open>
  The world: the cluster contents, the log of the requests sent so far, the clock (in
  seconds), and what the environment decides. The \<open>n\<close>-th request (counted from 0)
  fails with status \<open>c\<close> when \<open>fault_at n = Some c\<close>; if it reads a claim it sees the
  phase \<open>Bound\<close> iff \<open>bound_at n\<close>; if it reads a task it sees the counters
  \<open>job_at n\<close> (succeeded, failed; \<open>None\<close> in the source is 0 here); if it lists pods
  it gets \<open>pods_at n\<close>. \<open>route_host n\<close> is the host of the rule that the route named
  \<open>n\<close> was last created with. \<open>GAME_DOMAIN\<close> is the configured domain. The clock moves in
  \<open>time.sleep\<close> only: requests are taken to be instantaneous.
\<close>

record world =
  objects :: "(kind \<times> string) set"
  calls :: "request list"
  now :: int
  fault_at :: "nat \<Rightarrow> nat option"
  bound_at :: "nat \<Rightarrow> bool"
  job_at :: "nat \<Rightarrow> nat \<times> nat"
  pods_at :: "nat \<Rightarrow> string list"
  route_host :: "string \<Rightarrow> string option"
  GAME_DOMAIN :: string

text \<open>
  A call of the source takes the world and returns either the raised exception or the
  returned value, with the world it leaves. Text printed to standard output is not
  modelled.
\<close>

type_synonym 'a action = "world \<Rightarrow> (error + 'a) \<times> world"

definition succeed :: "'a \<Rightarrow> 'a action" where
  "succeed x w = (Inr x, w)"

definition raise :: "error \<Rightarrow> 'a action" where
  "raise e w = (Inl e, w)"

definition and_then :: "'a action \<Rightarrow> ('a \<Rightarrow> 'b action) \<Rightarrow> 'b action" where
  "and_then m f w = (case m w of (Inl e, w') \<Rightarrow> (Inl e, w') | (Inr x, w') \<Rightarrow> f x w')"

definition try_except :: "'a action \<Rightarrow> (error \<Rightarrow> 'a action) \<Rightarrow> 'a action" where
  "try_except m h w = (case m w of (Inl e, w') \<Rightarrow> h e w' | (Inr x, w') \<Rightarrow> (Inr x, w'))"

definition sleep :: "int \<Rightarrow> unit action" where
  "sleep n w = (Inr (), w\<lparr>now := now w + n\<rparr>)"

text \<open>
  One request to the API server. It is logged; an injected fault fails it; otherwise a
  create of an existing resource is a conflict (409), a read, patch or delete of a missing
  one is not found (404), and creates and deletes take effect at once.
\<close>

definition respond :: "verb \<Rightarrow> kind \<Rightarrow> string \<Rightarrow> unit action" where
  "respond v k n w =
     (let w' = w\<lparr>calls := calls w @ [(v, k, n)]\<rparr>
      in case fault_at w (length (calls w)) of
           Some c \<Rightarrow> (Inl (ApiException c), w')
         | None \<Rightarrow>
             (case v of
                Create \<Rightarrow>
                  if (k, n) \<in> objects w then (Inl (ApiException 409), w')
                  else (Inr (), w'\<lparr>objects := insert (k, n) (objects w)\<rparr>)
              | Delete \<Rightarrow>
                  if (k, n) \<in> objects w then (Inr (), w'\<lparr>objects := objects w - {(k, n)}\<rparr>)
                  else (Inl (ApiException 404), w')
              | Read \<Rightarrow>
                  if (k, n) \<in> objects w then (Inr (), w') else (Inl (ApiException 404), w')
              | Patch \<Rightarrow>
                  if (k, n) \<in> objects w then (Inr (), w') else (Inl (ApiException 404), w')
              | ListPods \<Rightarrow> (Inr (), w')
              | ReadLog \<Rightarrow> (Inr (), w')))"

text \<open>Reads that return something the caller looks at.\<close>

definition read_pvc_phase :: "string \<Rightarrow> bool action" where
  "read_pvc_phase pvc_name w =
     and_then (respond Read PersistentVolumeClaim pvc_name)
       (\<lambda>_. succeed (bound_at w (length (calls w)))) w"

definition read_job_status :: "string \<Rightarrow> (nat \<times> nat) action" where
  "read_job_status job_name w =
     and_then (respond Read Job job_name) (\<lambda>_. succeed (job_at w (length (calls w)))) w"

definition list_pods :: "string \<Rightarrow> string list action" where
  "list_pods label_selector w =
     and_then (respond ListPods Pod label_selector)
       (\<lambda>_. succeed (pods_at w (length (calls w)))) w"

lemma respond_now: "now (snd (respond v k n w)) = now w"
  by (simp add: respond_def Let_def split: option.split verb.split)

lemma and_then_now:
  "(\<And>w. now (snd (m w)) = now w) \<Longrightarrow> (\<And>x w. now (snd (f x w)) = now w) \<Longrightarrow>
   now (snd (and_then m f w)) = now w"
  by (auto simp: and_then_def split: prod.split sum.split) (metis snd_conv)+

section \<open>K8sManager\<close>

definition pvc_exists :: "string \<Rightarrow> bool action" where
  "pvc_exists pvc_name =
     try_except
       (and_then (respond Read PersistentVolumeClaim pvc_name) (\<lambda>_. succeed True))
       (\<lambda>e. case e of
          ApiException c \<Rightarrow> if c = 404 then succeed False else raise e
        | _ \<Rightarrow> raise e)"

definition create_persistent_volume :: "string \<Rightarrow> string \<Rightarrow> unit action" where
  "create_persistent_volume pvc_name storage_capacity =
     (let pv_name = ''pv-'' @ pvc_name
      in and_then
           (try_except (and_then (respond Read PersistentVolume pv_name) (\<lambda>_. succeed True))
              (\<lambda>e. case e of
                 ApiException c \<Rightarrow> if c \<noteq> 404 then raise e else succeed False
               | _ \<Rightarrow> raise e))
           (\<lambda>found. if found then succeed ()
              else respond Create PersistentVolume pv_name))"

text \<open>\<open>_wait_for_pvc_bound\<close>: the loop, then the method that reads the start time.\<close>

function wait_pvc_loop :: "string \<Rightarrow> int \<Rightarrow> int \<Rightarrow> unit action" where
  "wait_pvc_loop pvc_name start_time timeout w =
     (if now w - start_time < timeout then
        (case read_pvc_phase pvc_name w of
           (Inr bound, w1) \<Rightarrow>
             if bound then (Inr (), w1)
             else wait_pvc_loop pvc_name start_time timeout (snd (sleep 2 w1))
         | (Inl (ApiException c), w1) \<Rightarrow>
             if c = 404 then wait_pvc_loop pvc_name start_time timeout (snd (sleep 2 w1))
             else (Inl (ApiException c), w1)
         | (Inl e, w1) \<Rightarrow> (Inl e, w1))
      else (Inl (PvcBindTimeout pvc_name), w))"
  by pat_completeness auto

lemma read_pvc_phase_now: "read_pvc_phase p w = (r, w1) \<Longrightarrow> now w1 = now w"
  using respond_now [of Read PersistentVolumeClaim p w]
  by (auto simp: read_pvc_phase_def and_then_def succeed_def split: prod.splits sum.splits)

termination wait_pvc_loop
  by (relation "measure (\<lambda>(p, s, t, w). nat (t - (now w - s)))")
     (auto simp: sleep_def dest!: read_pvc_phase_now [OF sym])

definition wait_for_pvc_bound :: "string \<Rightarrow> int \<Rightarrow> unit action" where
  "wait_for_pvc_bound pvc_name timeout w = wait_pvc_loop pvc_name (now w) timeout w"

definition create_persistent_volume_claim :: "string \<Rightarrow> string \<Rightarrow> unit action" where
  "create_persistent_volume_claim pvc_name storage_capacity =
     and_then (respond Create PersistentVolumeClaim pvc_name)
       (\<lambda>_. wait_for_pvc_bound pvc_name 60)"

definition create_or_update_paper_configmap :: "unit action" where
  "create_or_update_paper_configmap =
     (let cm_name = ''paper-global-config''
      in try_except
           (and_then (respond Read ConfigMap cm_name) (\<lambda>_. respond Patch ConfigMap cm_name))
           (\<lambda>e. case e of
              ApiException c \<Rightarrow>
                if c = 404 then respond Create ConfigMap cm_name else raise e
            | _ \<Rightarrow> raise e))"

definition create_servertap_configmap :: "string \<Rightarrow> string \<Rightarrow> unit action" where
  "create_servertap_configmap pod_name api_key =
     respond Create ConfigMap (''servertap-config-'' @ pod_name)"

definition create_deployment :: "string \<Rightarrow> string \<Rightarrow> unit action" where
  "create_deployment deployment_name pvc_name = respond Create Deployment deployment_name"

definition create_service :: "string \<Rightarrow> unit action" where
  "create_service pod_name = respond Create Service (pod_name @ ''-svc'')"

text \<open>
  The route is created with one rule, for the host \<open><pod_name>-api.<GAME_DOMAIN>\<close>;
  \<open>record_route\<close> notes the host of a route that was created.
\<close>

definition record_route :: "string \<Rightarrow> string \<Rightarrow> unit action" where
  "record_route ingress_name host w =
     (Inr (), w\<lparr>route_host := (route_host w)(ingress_name \<mapsto> host)\<rparr>)"

definition create_ingress :: "string \<Rightarrow> unit action" where
  "create_ingress pod_name w =
     (let ingress_name = ''servertap-'' @ pod_name @ ''-ingress'';
          host = pod_name @ ''-api.'' @ GAME_DOMAIN w
      in and_then (respond Create Ingress ingress_name)
           (\<lambda>_. record_route ingress_name host) w)"

text \<open>
  \<open>_wait_for_job_completion\<close>. \<open>job_poll\<close> is the body of the \<open>try\<close>: it returns
  \<open>True\<close> where the source returns from the wait, \<open>False\<close> where it falls through to
  the sleep, and raises what the source raises there.
\<close>

definition job_poll :: "string \<Rightarrow> bool action" where
  "job_poll job_name =
     and_then (read_job_status job_name) (\<lambda>(succeeded, failed).
       if 0 < succeeded then succeed True
       else if 0 < failed then
         and_then (list_pods (''job-name='' @ job_name)) (\<lambda>pods.
         and_then
           (case pods of [] \<Rightarrow> succeed () | pod_name # _ \<Rightarrow> respond ReadLog Pod pod_name)
           (\<lambda>_. raise (JobFailed job_name)))
       else succeed False)"

lemma job_poll_now: "job_poll j w = (r, w1) \<Longrightarrow> now w1 = now w"
proof -
  have "now (snd (job_poll j w)) = now w"
    unfolding job_poll_def read_job_status_def list_pods_def
    by (intro and_then_now)
       (auto simp: respond_now succeed_def raise_def split: prod.split list.split
             intro!: and_then_now)
  then show "job_poll j w = (r, w1) \<Longrightarrow> now w1 = now w" by simp
qed

function wait_job_loop :: "string \<Rightarrow> int \<Rightarrow> int \<Rightarrow> unit action" where
  "wait_job_loop job_name start_time timeout w =
     (if now w - start_time < timeout then
        (case job_poll job_name w of
           (Inr done, w1) \<Rightarrow>
             if done then (Inr (), w1)
             else wait_job_loop job_name start_time timeout (snd (sleep 2 w1))
         | (Inl (ApiException c), w1) \<Rightarrow>
             if c \<noteq> 404 then (Inl (ApiException c), w1)
             else wait_job_loop job_name start_time timeout (snd (sleep 2 w1))
         | (Inl e, w1) \<Rightarrow> (Inl e, w1))
      else (Inl (JobTimeout job_name), w))"
  by pat_completeness auto
termination
  by (relation "measure (\<lambda>(p, s, t, w). nat (t - (now w - s)))")
     (auto simp: sleep_def dest!: job_poll_now [OF sym])

definition wait_for_job_completion :: "string \<Rightarrow> int \<Rightarrow> unit action" where
  "wait_for_job_completion job_name timeout w = wait_job_loop job_name (now w) timeout w"

definition create_nfs_directory_job :: "string \<Rightarrow> unit action" where
  "create_nfs_directory_job pvc_name =
     (let job_name = ''create-nfs-dir-'' @ pvc_name
      in and_then
           (try_except (and_then (respond Delete Job job_name) (\<lambda>_. sleep 2))
              (\<lambda>e. case e of
                 ApiException c \<Rightarrow> if c \<noteq> 404 then raise e else succeed ()
               | _ \<Rightarrow> raise e))
           (\<lambda>_. and_then (respond Create Job job_name)
           (\<lambda>_. wait_for_job_completion job_name 60)))"

text \<open>
  \<open>_delete_resource\<close>; the delete function the source passes is given by the kind.
\<close>

definition delete_resource :: "kind \<Rightarrow> string \<Rightarrow> unit action" where
  "delete_resource resource_type resource_name =
     try_except (respond Delete resource_type resource_name)
       (\<lambda>e. case e of
          ApiException c \<Rightarrow> if c \<noteq> 404 then raise e else succeed ()
        | _ \<Rightarrow> raise e)"

text \<open>A returned \<open>dict\<close> is an association list, in the order the source writes it.\<close>

type_synonym response = "(string \<times> string) list"

definition cleanup_ephemeral_resources :: "string \<Rightarrow> response action" where
  "cleanup_ephemeral_resources pod_name =
     and_then (delete_resource Deployment pod_name) (\<lambda>_.
     and_then (delete_resource Service (pod_name @ ''-svc'')) (\<lambda>_.
     and_then (delete_resource Ingress (''servertap-'' @ pod_name @ ''-ingress'')) (\<lambda>_.
     and_then (delete_resource ConfigMap (''servertap-config-'' @ pod_name)) (\<lambda>_.
     succeed
       [(''status'', ''success''),
        (''message'', ''Server '' @ pod_name @ '' resources cleaned up (paused).''),
        (''pod_name'', pod_name)]))))"

definition delete_persistent_data :: "string \<Rightarrow> unit action" where
  "delete_persistent_data pvc_name0 =
     (let pvc_name = sanitize_name pvc_name0
      in and_then (delete_resource PersistentVolumeClaim pvc_name) (\<lambda>_.
         try_except (respond Delete PersistentVolume (''pv-'' @ pvc_name))
           (\<lambda>e. case e of
              ApiException c \<Rightarrow> if c \<noteq> 404 then raise e else succeed ()
            | _ \<Rightarrow> raise e)))"

definition cleanup_all_resources :: "string \<Rightarrow> string \<Rightarrow> response action" where
  "cleanup_all_resources pod_name0 pvc_name0 =
     (let pod_name = sanitize_name pod_name0;
          pvc_name = sanitize_name pvc_name0
      in and_then (cleanup_ephemeral_resources pod_name) (\<lambda>_.
         and_then (delete_persistent_data pvc_name) (\<lambda>_.
         succeed [(''status'', ''cleaned''), (''pod_name'', pod_name), (''pvc_name'', pvc_name)])))"

text \<open>
  The storage step of \<open>create_minecraft_resources\<close> (the \<open>if not self.pvc_exists\<close>
  block), named so that it can be talked about on its own.
\<close>

definition ensure_storage :: "string \<Rightarrow> string \<Rightarrow> unit action" where
  "ensure_storage pvc_name storage_capacity =
     and_then (pvc_exists pvc_name) (\<lambda>present.
       if \<not> present then
         and_then (create_nfs_directory_job pvc_name) (\<lambda>_.
         and_then (create_persistent_volume pvc_name storage_capacity) (\<lambda>_.
         create_persistent_volume_claim pvc_name storage_capacity))
       else succeed ())"

definition create_minecraft_resources ::
  "string \<Rightarrow> string \<Rightarrow> string \<Rightarrow> string \<Rightarrow> string \<Rightarrow> string \<Rightarrow> string \<Rightarrow> string \<Rightarrow> response action"
where
  "create_minecraft_resources pod_name pvc_name0 servertap_api_key memory_limit memory_request
     cpu_limit cpu_request storage_capacity =
     (let deployment_name = sanitize_name pod_name;
          pvc_name = sanitize_name pvc_name0
      in and_then (cleanup_ephemeral_resources deployment_name) (\<lambda>_.
         and_then create_or_update_paper_configmap (\<lambda>_.
         and_then (create_servertap_configmap deployment_name servertap_api_key) (\<lambda>_.
         and_then (ensure_storage pvc_name storage_capacity) (\<lambda>_.
         and_then (create_deployment deployment_name pvc_name) (\<lambda>_.
         and_then (create_service deployment_name) (\<lambda>_.
         and_then (create_ingress deployment_name) (\<lambda>_.
         (\<lambda>w. succeed
            [(''status'', ''success''),
             (''pod_name'', deployment_name),
             (''pvc_name'', pvc_name),
             (''game_url'', deployment_name @ ''.'' @ GAME_DOMAIN w),
             (''api_url'', ''http://'' @ deployment_name @ ''-api.'' @ GAME_DOMAIN w)] w)))))))))"

section \<open>MinecraftServerManager\<close>

definition create_server ::
  "string \<Rightarrow> string \<Rightarrow> string \<Rightarrow> string \<Rightarrow> string \<Rightarrow> string \<Rightarrow> string \<Rightarrow> string \<Rightarrow> response action"
where
  "create_server pod_name pvc_name servertap_key memory_limit memory_request
     cpu_limit cpu_request storage_capacity =
     try_except
       (create_minecraft_resources pod_name pvc_name servertap_key memory_limit memory_request
          cpu_limit cpu_request storage_capacity)
       (\<lambda>e. and_then (cleanup_ephemeral_resources pod_name) (\<lambda>_. raise e))"

definition delete_server :: "string \<Rightarrow> string \<Rightarrow> response action" where
  "delete_server pod_name pvc_name =
     try_except (cleanup_all_resources pod_name pvc_name) (\<lambda>e. raise e)"

definition delete_server_data :: "string \<Rightarrow> response action" where
  "delete_server_data pvc_name =
     and_then (delete_persistent_data pvc_name) (\<lambda>_.
     succeed [(''status'', ''persistent_data_deleted''), (''pvc_name'', pvc_name)])"

text \<open>
  The methods a \<open>MinecraftServerManager\<close> object has, by name. Looking up any other
  attribute raises \<open>AttributeError\<close>.
\<close>

datatype manager_method =
  M_create_server | M_delete_server | M_list_all_servers_data | M_delete_server_data

definition MinecraftServerManager_getattr :: "string \<Rightarrow> error + manager_method" where
  "MinecraftServerManager_getattr name =
     (case map_of
        [(''create_server'', M_create_server),
         (''delete_server'', M_delete_server),
         (''list_all_servers_data'', M_list_all_servers_data),
         (''delete_server_data'', M_delete_server_data)] name of
        None \<Rightarrow> Inl (AttributeError name)
      | Some m \<Rightarrow> Inr m)"

section \<open>The HTTP endpoints\<close>

text \<open>
  The endpoints of \<open>main.py\<close>, after authentication. Each turns any exception into an
  \<open>HTTPException\<close> with status 500. The endpoint \<open>create_server\<close> is
  \<open>api_create_server\<close> here, and likewise for the others, since the manager's methods
  have the same names.
\<close>

definition api_create_server ::
  "string \<Rightarrow> string \<Rightarrow> string \<Rightarrow> string \<Rightarrow> string \<Rightarrow> string \<Rightarrow> string \<Rightarrow> string \<Rightarrow> response action"
where
  "api_create_server pod_name pvc_name servertap_key memory_limit memory_request
     cpu_limit cpu_request storage_capacity =
     try_except
       (create_server pod_name pvc_name servertap_key memory_limit memory_request
          cpu_limit cpu_request storage_capacity)
       (\<lambda>e. raise (HTTPException 500 e))"

definition api_delete_server :: "string \<Rightarrow> string \<Rightarrow> response action" where
  "api_delete_server pod_name pvc_name =
     try_except (delete_server pod_name pvc_name) (\<lambda>e. raise (HTTPException 500 e))"

text \<open>
  \<open>pause_server\<close> calls \<open>server_manager.pause_server(pod_name=pod_name)\<close>. The
  attribute is looked up first. None of the four methods of the class takes the single
  keyword argument \<open>pod_name\<close>, so a call of any of them with it raises \<open>TypeError\<close>.
\<close>

definition call_with_pod_name :: "manager_method \<Rightarrow> string \<Rightarrow> response action" where
  "call_with_pod_name m pod_name =
     (case m of
        M_create_server \<Rightarrow> raise (TypeError ''create_server'')
      | M_delete_server \<Rightarrow> raise (TypeError ''delete_server'')
      | M_list_all_servers_data \<Rightarrow> raise (TypeError ''list_all_servers_data'')
      | M_delete_server_data \<Rightarrow> raise (TypeError ''delete_server_data''))"

definition api_pause_server :: "string \<Rightarrow> response action" where
  "api_pause_server pod_name =
     try_except
       (case MinecraftServerManager_getattr ''pause_server'' of
          Inl e \<Rightarrow> raise e
        | Inr m \<Rightarrow> call_with_pod_name m pod_name)
       (\<lambda>e. raise (HTTPException 500 e))"

section \<open>Shapes of a normalized name\<close>

text \<open>Used to state what \<open>sanitize_name\<close> produces.\<close>

fun no_double_dash :: "string \<Rightarrow> bool" where
  "no_double_dash (c # d # s) =
     (\<not> (c = CHR ''-'' \<and> d = CHR ''-'') \<and> no_double_dash (d # s))"
| "no_double_dash _ = True"

definition trimmed :: "string \<Rightarrow> bool" where
  "trimmed s = (s = [] \<or> (hd s \<noteq> CHR ''-'' \<and> last s \<noteq> CHR ''-''))"

section \<open>Requests sent and their effect\<close>

text \<open>
  Vocabulary for the properties below. \<open>new_calls w w'\<close> are the requests sent between
  two worlds. \<open>issued S w w'\<close> says that \<open>w'\<close> comes from \<open>w\<close> by requests of the set
  \<open>S\<close> only: the log grew by requests in \<open>S\<close>, a resource disappeared only if \<open>S\<close> has
  its delete, appeared only if \<open>S\<close> has its create, the clock did not go back and what
  the environment decides is the same.
\<close>

definition new_calls :: "world \<Rightarrow> world \<Rightarrow> request list" where
  "new_calls w w' = drop (length (calls w)) (calls w')"

definition same_oracle :: "world \<Rightarrow> world \<Rightarrow> bool" where
  "same_oracle w w' \<longleftrightarrow>
     fault_at w' = fault_at w \<and> bound_at w' = bound_at w \<and> job_at w' = job_at w \<and>
     pods_at w' = pods_at w \<and> GAME_DOMAIN w' = GAME_DOMAIN w"

definition issued :: "request set \<Rightarrow> world \<Rightarrow> world \<Rightarrow> bool" where
  "issued S w w' \<longleftrightarrow>
     (\<exists>xs. calls w' = calls w @ xs \<and> set xs \<subseteq> S) \<and>
     objects w - objects w' \<subseteq> {ob. (Delete, ob) \<in> S} \<and>
     objects w' - objects w \<subseteq> {ob. (Create, ob) \<in> S} \<and>
     same_oracle w w' \<and> now w \<le> now w'"

definition issues :: "request set \<Rightarrow> 'a action \<Rightarrow> bool" where
  "issues S m \<longleftrightarrow> (\<forall>w. issued S w (snd (m w)))"

text \<open>
  The resources named after a server identity \<open>s\<close> (workload, network endpoint, route,
  per-server config object), the shared config object, and the requests that provisioning
  may send for a server identity \<open>s\<close> and a storage identity \<open>d\<close>.
\<close>

definition ephemeral_set :: "string \<Rightarrow> (kind \<times> string) set" where
  "ephemeral_set s =
     {(Deployment, s), (Service, s @ ''-svc''), (Ingress, ''servertap-'' @ s @ ''-ingress''),
      (ConfigMap, ''servertap-config-'' @ s)}"

definition shared_config :: "kind \<times> string" where
  "shared_config = (ConfigMap, ''paper-global-config'')"

definition poll_requests :: "string \<Rightarrow> request set" where
  "poll_requests j =
     {(Read, Job, j), (ListPods, Pod, ''job-name='' @ j)} \<union> range (\<lambda>n. (ReadLog, Pod, n))"

definition task_requests :: "string \<Rightarrow> request set" where
  "task_requests j =
     {(Delete, Job, j), (Create, Job, j), (Read, Job, j), (ListPods, Pod, ''job-name='' @ j)}
     \<union> range (\<lambda>n. (ReadLog, Pod, n))"

definition storage_requests :: "string \<Rightarrow> request set" where
  "storage_requests d =
     task_requests (''create-nfs-dir-'' @ d)
     \<union> {(Read, PersistentVolume, ''pv-'' @ d), (Create, PersistentVolume, ''pv-'' @ d),
        (Create, PersistentVolumeClaim, d), (Read, PersistentVolumeClaim, d)}"

definition provision_requests :: "string \<Rightarrow> string \<Rightarrow> request set" where
  "provision_requests s d =
     Pair Delete ` ephemeral_set s \<union> Pair Create ` ephemeral_set s
     \<union> {(Read, shared_config), (Patch, shared_config), (Create, shared_config)}
     \<union> storage_requests d"

text \<open>
  The resources a provisioning call must leave alone: durable volumes, volume claims and
  the shared config object.
\<close>

definition durable :: "kind \<times> string \<Rightarrow> bool" where
  "durable ob \<longleftrightarrow>
     fst ob = PersistentVolume \<or> fst ob = PersistentVolumeClaim \<or> ob = shared_config"

text \<open>
  Two worlds for the failing runs below. In \<open>world_service_fails\<close> the claim
  \<open>data\<close> exists and the tenth request (the creation of the network endpoint) fails with
  status 500; \<open>world_cleanup_fails\<close> is the same with the eleventh request (the first
  delete of the compensation) failing with status 503.
\<close>

definition world_service_fails :: world where
  "world_service_fails =
     \<lparr>objects = {(PersistentVolumeClaim, ''data'')}, calls = [], now = 0,
      fault_at = (\<lambda>n. if n = 9 then Some 500 else None), bound_at = (\<lambda>_. True),
      job_at = (\<lambda>_. (1, 0)), pods_at = (\<lambda>_. []),
      route_host = (\<lambda>_. None), GAME_DOMAIN = ''mc.msdca.shop''\<rparr>"

definition world_cleanup_fails :: world where
  "world_cleanup_fails =
     world_service_fails
       \<lparr>fault_at := (\<lambda>n. if n = 9 then Some 500 else if n = 10 then Some 503 else None)\<rparr>"

text \<open>
  A world in which the task \<open>j\<close> exists and is seen failed, with one pod \<open>p\<close>, and
  the third request (the read of the pod's log) fails with status 500.
\<close>

definition world_log_fails :: world where
  "world_log_fails =
     \<lparr>objects = {(Job, ''j'')}, calls = [], now = 0,
      fault_at = (\<lambda>n. if n = 2 then Some 500 else None), bound_at = (\<lambda>_. True),
      job_at = (\<lambda>_. (0, 1)), pods_at = (\<lambda>_. [''p'']),
      route_host = (\<lambda>_. None), GAME_DOMAIN = ''mc.msdca.shop''\<rparr>"

text \<open>A fresh cluster in which nothing fails, claims bind and tasks succeed at once.\<close>

definition fresh_world :: world where
  "fresh_world =
     \<lparr>objects = {}, calls = [], now = 0, fault_at = (\<lambda>_. None), bound_at = (\<lambda>_. True),
      job_at = (\<lambda>_. (1, 0)), pods_at = (\<lambda>_. []),
      route_host = (\<lambda>_. None), GAME_DOMAIN = ''mc.msdca.shop''\<rparr>"

text \<open>
  The requests of a provisioning that finds its claim: those for the ephemeral resources
  and the shared config object, and the existence probe. The creations of the storage
  step, which must not happen then.
\<close>

definition reuse_requests :: "string \<Rightarrow> string \<Rightarrow> request set" where
  "reuse_requests s d =
     Pair Delete ` ephemeral_set s \<union> Pair Create ` ephemeral_set s
     \<union> {(Read, shared_config), (Patch, shared_config), (Create, shared_config)}
     \<union> {(Read, PersistentVolumeClaim, d)}"

definition storage_creations :: "string \<Rightarrow> request set" where
  "storage_creations d =
     {(Create, Job, ''create-nfs-dir-'' @ d), (Create, PersistentVolume, ''pv-'' @ d),
      (Create, PersistentVolumeClaim, d)}"

definition storage_kind :: "kind \<times> string \<Rightarrow> bool" where
  "storage_kind ob \<longleftrightarrow> fst ob = PersistentVolume \<or> fst ob = PersistentVolumeClaim"

text \<open>A cluster that holds the claim \<open>d\<close> and nothing else, in which nothing fails.\<close>

definition claim_world :: world where
  "claim_world = fresh_world\<lparr>objects := {(PersistentVolumeClaim, ''d'')}\<rparr>"

text \<open>The durable resources of a storage identity \<open>d\<close>: the claim and its volume.\<close>

definition storage_set :: "string \<Rightarrow> (kind \<times> string) set" where
  "storage_set d = {(PersistentVolumeClaim, d), (PersistentVolume, ''pv-'' @ d)}"

section \<open>The condition waiter\<close>






text \<open>The world after a wait that sent the request \<open>polls\<close> times and slept \<open>sleeps\<close> times.\<close>

definition after_wait :: "world \<Rightarrow> request \<Rightarrow> nat \<Rightarrow> nat \<Rightarrow> world" where
  "after_wait w req polls sleeps =
     w\<lparr>calls := calls w @ replicate polls req, now := now w + 2 * int sleeps\<rparr>"


section \<open>Concurrent provisioning requests\<close>

text \<open>
  Two requests that run \<open>create_or_update_paper_configmap\<close> at the same time, each on a
  thread of its own. A thread does one request to the API server per step; between two
  requests of one thread the other thread may run. \<open>cm_pc\<close> is where a thread stands in
  the function: before the read, before the patch, before the create, or returned.

  The manager has one lock, \<open>_configmap_lock\<close>, created free in \<open>__init__\<close>. The body
  of \<open>create_or_update_paper_configmap\<close> has no statement that acquires or releases it,
  so no step below changes it.
\<close>

datatype lock_state = Free | Held nat

datatype cm_pc = AtRead | AtPatch | AtCreate | Returned "error + unit"

definition cm_step :: "cm_pc \<Rightarrow> world \<Rightarrow> cm_pc \<times> world" where
  "cm_step pc w =
     (case pc of
        AtRead \<Rightarrow>
          (case respond Read ConfigMap ''paper-global-config'' w of
             (Inr _, w') \<Rightarrow> (AtPatch, w')
           | (Inl (ApiException c), w') \<Rightarrow>
               (if c = 404 then AtCreate else Returned (Inl (ApiException c)), w')
           | (Inl e, w') \<Rightarrow> (Returned (Inl e), w'))
      | AtPatch \<Rightarrow>
          (case respond Patch ConfigMap ''paper-global-config'' w of
             (Inr _, w') \<Rightarrow> (Returned (Inr ()), w')
           | (Inl (ApiException c), w') \<Rightarrow>
               (if c = 404 then AtCreate else Returned (Inl (ApiException c)), w')
           | (Inl e, w') \<Rightarrow> (Returned (Inl e), w'))
      | AtCreate \<Rightarrow>
          (case respond Create ConfigMap ''paper-global-config'' w of
             (r, w') \<Rightarrow> (Returned r, w'))
      | Returned r \<Rightarrow> (Returned r, w))"

record system =
  configmap_lock :: lock_state
  threads :: "cm_pc list"
  cluster :: world

definition sys_step :: "nat \<Rightarrow> system \<Rightarrow> system" where
  "sys_step i s =
     (if i < length (threads s) then
        (case cm_step (threads s ! i) (cluster s) of
           (pc', w') \<Rightarrow> s\<lparr>threads := (threads s)[i := pc'], cluster := w'\<rparr>)
      else s)"

definition run_schedule :: "nat list \<Rightarrow> system \<Rightarrow> system" where
  "run_schedule schedule s = fold sys_step schedule s"


section \<open>Properties of name normalization\<close>

lemma name_char_lower: "name_char c \<Longrightarrow> py_lower_char c = c"
  by (auto simp: name_char_def py_lower_char_def Let_def)

lemma collapse_set: "set (collapse_dashes s) = set s"
  by (induction s rule: collapse_dashes.induct) auto

lemma collapse_ends:
  "s \<noteq> [] \<Longrightarrow>
   collapse_dashes s \<noteq> [] \<and> hd (collapse_dashes s) = hd s \<and> last (collapse_dashes s) = last s"
  by (induction s rule: collapse_dashes.induct) auto

lemma collapse_nodd: "no_double_dash (collapse_dashes s)"
proof (induction s rule: collapse_dashes.induct)
  case (3 c d s)
  then show ?case using collapse_ends [of "d # s"]
    by (cases "collapse_dashes (d # s)") auto
qed auto

lemma collapse_id: "no_double_dash s \<Longrightarrow> collapse_dashes s = s"
  by (induction s rule: collapse_dashes.induct) auto

lemma last_dropWhile: "dropWhile P xs \<noteq> [] \<Longrightarrow> last (dropWhile P xs) = last xs"
  by (induction xs) (auto split: if_splits)

lemma strip_trimmed: "trimmed (strip_dash s)"
proof -
  define t where "t = dropWhile (\<lambda>c. c = CHR ''-'') s"
  define u where "u = dropWhile (\<lambda>c. c = CHR ''-'') (rev t)"
  have r: "strip_dash s = rev u" by (simp add: strip_dash_def t_def u_def)
  show ?thesis
  proof (cases "u = []")
    case True
    with r show ?thesis by (simp add: trimmed_def)
  next
    case False
    then have t: "t \<noteq> []" unfolding u_def by auto
    from False have "hd u \<noteq> CHR ''-''" unfolding u_def by (rule hd_dropWhile)
    then have l: "last (rev u) \<noteq> CHR ''-''" using False by (simp add: last_rev)
    from False have "last u = last (rev t)" unfolding u_def by (rule last_dropWhile)
    then have "hd (rev u) = hd t" using False t by (simp add: hd_rev last_rev)
    moreover from t have "hd t \<noteq> CHR ''-''" unfolding t_def by (rule hd_dropWhile)
    ultimately have "hd (rev u) \<noteq> CHR ''-''" by simp
    with l r show ?thesis by (simp add: trimmed_def)
  qed
qed

lemma strip_id: "trimmed s \<Longrightarrow> strip_dash s = s"
proof (cases "s = []")
  case True
  then show ?thesis by (simp add: strip_dash_def)
next
  case False
  assume "trimmed s"
  with False have h: "hd s \<noteq> CHR ''-''" and l: "last s \<noteq> CHR ''-''"
    by (auto simp: trimmed_def)
  from h have "dropWhile (\<lambda>c. c = CHR ''-'') s = s"
    by (simp add: dropWhile_eq_self_iff)
  moreover from l False have "dropWhile (\<lambda>c. c = CHR ''-'') (rev s) = rev s"
    by (simp add: dropWhile_eq_self_iff hd_rev)
  ultimately show ?thesis by (simp add: strip_dash_def)
qed

lemma collapse_trimmed: "trimmed s \<Longrightarrow> trimmed (collapse_dashes s)"
  using collapse_ends [of s] by (cases "s = []") (auto simp: trimmed_def)

lemma strip_set: "set (strip_dash s) \<subseteq> set s"
proof -
  have "set (strip_dash s) \<subseteq> set (dropWhile (\<lambda>c. c = CHR ''-'') s)"
    unfolding strip_dash_def by (auto dest: set_dropWhileD)
  then show ?thesis by (auto dest: set_dropWhileD)
qed

lemma sanitize_chars: "list_all name_char (sanitize_name s)"
proof -
  have "set (sanitize_name s) \<subseteq> set (filter name_char (py_lower s))"
    unfolding sanitize_name_def collapse_set by (rule strip_set)
  then show ?thesis by (auto simp: list_all_iff)
qed

lemma sanitize_trimmed: "trimmed (sanitize_name s)"
  unfolding sanitize_name_def by (rule collapse_trimmed) (rule strip_trimmed)

lemma sanitize_nodd: "no_double_dash (sanitize_name s)"
  unfolding sanitize_name_def by (rule collapse_nodd)

lemma lower_id: "list_all name_char s \<Longrightarrow> py_lower s = s"
  by (induction s) (auto simp: py_lower_def name_char_lower)

lemma filter_id: "list_all name_char s \<Longrightarrow> filter name_char s = s"
  by (induction s) auto

lemma sanitize_fixed:
  "list_all name_char s \<Longrightarrow> trimmed s \<Longrightarrow> no_double_dash s \<Longrightarrow> sanitize_name s = s"
  by (simp add: sanitize_name_def lower_id filter_id strip_id collapse_id)

lemma sanitize_name_fixpoint: "sanitize_name (sanitize_name s) = sanitize_name s"
  by (intro sanitize_fixed sanitize_chars sanitize_trimmed sanitize_nodd)

text \<open>
  Claim C9. Normalization is a function of its input alone, and it is idempotent:
  normalizing an already normalized name returns it unchanged.
\<close>

theorem sanitize_name_idempotent: "sanitize_name (sanitize_name s) = sanitize_name s"
  by (rule sanitize_fixed) (rule sanitize_chars sanitize_trimmed sanitize_nodd)+

section \<open>Requests sent by each operation\<close>

lemma issued_refl: "issued S w w"
  by (simp add: issued_def same_oracle_def)

lemma issued_trans:
  assumes a: "issued S w w1" and b: "issued S w1 w2"
  shows "issued S w w2"
proof -
  from a obtain xs where xs: "calls w1 = calls w @ xs" "set xs \<subseteq> S"
    unfolding issued_def by blast
  from b obtain ys where ys: "calls w2 = calls w1 @ ys" "set ys \<subseteq> S"
    unfolding issued_def by blast
  from xs ys have "calls w2 = calls w @ (xs @ ys) \<and> set (xs @ ys) \<subseteq> S" by simp
  then have c: "\<exists>zs. calls w2 = calls w @ zs \<and> set zs \<subseteq> S" by blast
  have d: "objects w - objects w2 \<subseteq> {ob. (Delete, ob) \<in> S}"
    using a b unfolding issued_def by blast
  have e: "objects w2 - objects w \<subseteq> {ob. (Create, ob) \<in> S}"
    using a b unfolding issued_def by blast
  have f: "same_oracle w w2" using a b unfolding issued_def same_oracle_def by simp
  have g: "now w \<le> now w2" using a b unfolding issued_def by simp
  from c d e f g show ?thesis unfolding issued_def by blast
qed

lemma issued_mono: "S \<subseteq> T \<Longrightarrow> issued S w w' \<Longrightarrow> issued T w w'"
  unfolding issued_def by blast

lemma issues_mono: "S \<subseteq> T \<Longrightarrow> issues S m \<Longrightarrow> issues T m"
  unfolding issues_def using issued_mono by blast

lemma issues_succeed: "issues S (succeed x)"
  by (simp add: issues_def succeed_def issued_refl)

lemma issues_raise: "issues S (raise e)"
  by (simp add: issues_def raise_def issued_refl)

lemma issues_and_then:
  assumes m: "issues S m" and f: "\<And>x. issues S (f x)"
  shows "issues S (and_then m f)"
  unfolding issues_def
proof
  fix w
  obtain r w1 where r: "m w = (r, w1)" by (cases "m w")
  from m have 1: "issued S w w1" unfolding issues_def using r by (metis snd_conv)
  show "issued S w (snd (and_then m f w))"
  proof (cases r)
    case (Inl e)
    with r 1 show ?thesis by (simp add: and_then_def)
  next
    case (Inr x)
    from f have "issued S w1 (snd (f x w1))" unfolding issues_def by blast
    with 1 have "issued S w (snd (f x w1))" by (rule issued_trans)
    with r Inr show ?thesis by (simp add: and_then_def)
  qed
qed

lemma issues_try_except:
  assumes m: "issues S m" and h: "\<And>e. issues S (h e)"
  shows "issues S (try_except m h)"
  unfolding issues_def
proof
  fix w
  obtain r w1 where r: "m w = (r, w1)" by (cases "m w")
  from m have 1: "issued S w w1" unfolding issues_def using r by (metis snd_conv)
  show "issued S w (snd (try_except m h w))"
  proof (cases r)
    case (Inr x)
    with r 1 show ?thesis by (simp add: try_except_def)
  next
    case (Inl e)
    from h have "issued S w1 (snd (h e w1))" unfolding issues_def by blast
    with 1 have "issued S w (snd (h e w1))" by (rule issued_trans)
    with r Inl show ?thesis by (simp add: try_except_def)
  qed
qed

lemma issues_sleep: "0 \<le> n \<Longrightarrow> issues S (sleep n)"
  by (simp add: issues_def sleep_def issued_def same_oracle_def)

lemma issues_respond:
  assumes "(v, k, n) \<in> S"
  shows "issues S (respond v k n)"
  unfolding issues_def
proof
  fix w
  show "issued S w (snd (respond v k n w))"
  proof (cases "fault_at w (length (calls w))")
    case (Some c)
    with assms show ?thesis by (simp add: respond_def Let_def issued_def same_oracle_def)
  next
    case None
    with assms show ?thesis
      by (cases v) (auto simp: respond_def Let_def issued_def same_oracle_def)
  qed
qed

lemmas issues_intros =
  issues_and_then issues_try_except issues_respond issues_succeed issues_raise issues_sleep

lemma issues_delete_resource: "(Delete, k, n) \<in> S \<Longrightarrow> issues S (delete_resource k n)"
  unfolding delete_resource_def
  by (auto intro!: issues_intros split: error.split)

lemma issues_cleanup:
  "Pair Delete ` ephemeral_set p \<subseteq> S \<Longrightarrow> issues S (cleanup_ephemeral_resources p)"
  unfolding cleanup_ephemeral_resources_def ephemeral_set_def
  by (intro issues_and_then issues_delete_resource issues_succeed) auto

lemma issues_paper:
  "{(Read, shared_config), (Patch, shared_config), (Create, shared_config)} \<subseteq> S \<Longrightarrow>
   issues S create_or_update_paper_configmap"
  unfolding create_or_update_paper_configmap_def shared_config_def Let_def
  by (auto intro!: issues_intros split: error.split)

lemma issues_pvc_exists: "(Read, PersistentVolumeClaim, d) \<in> S \<Longrightarrow> issues S (pvc_exists d)"
  unfolding pvc_exists_def
  by (auto intro!: issues_intros split: error.split)

lemma issues_create_pv:
  "{(Read, PersistentVolume, ''pv-'' @ d), (Create, PersistentVolume, ''pv-'' @ d)} \<subseteq> S \<Longrightarrow>
   issues S (create_persistent_volume d cap)"
  unfolding create_persistent_volume_def Let_def
  by (auto intro!: issues_intros split: error.split)

lemma issues_read_pvc_phase:
  assumes "(Read, PersistentVolumeClaim, p) \<in> S"
  shows "issued S w (snd (read_pvc_phase p w))"
proof -
  have "issues S (and_then (respond Read PersistentVolumeClaim p)
                   (\<lambda>_. succeed (bound_at w (length (calls w)))))"
    using assms by (intro issues_intros)
  then show ?thesis unfolding issues_def read_pvc_phase_def by blast
qed

lemma issued_sleep: "0 \<le> n \<Longrightarrow> issued S w (snd (sleep n w))"
  using issues_sleep [of n S] unfolding issues_def by blast

declare wait_pvc_loop.simps [simp del] wait_job_loop.simps [simp del]

lemma issued_wait_pvc_loop:
  "(Read, PersistentVolumeClaim, p) \<in> S \<Longrightarrow> issued S w (snd (wait_pvc_loop p s t w))"
proof (induction p s t w rule: wait_pvc_loop.induct)
  case (1 p s t w)
  note S = "1.prems"
  show ?case
  proof (cases "now w - s < t")
    case False
    then show ?thesis by (simp add: wait_pvc_loop.simps [of p s t w] issued_refl)
  next
    case True
    obtain r w1 where r: "read_pvc_phase p w = (r, w1)" by (cases "read_pvc_phase p w")
    have 0: "issued S w w1" using issues_read_pvc_phase [OF S, of w] r by simp
    have sl: "issued S w1 (snd (sleep 2 w1))" by (rule issued_sleep) simp
    let ?again = "wait_pvc_loop p s t (snd (sleep 2 w1))"
    show ?thesis
    proof (cases "r = Inr False \<or> r = Inl (ApiException 404)")
      case retry: True
      then have "issued S (snd (sleep 2 w1)) (snd ?again)"
        using "1.IH" (1) [OF True r [symmetric] _ refl _ S, of 404]
          "1.IH" (2) [OF True r [symmetric] _ _ S, of False]
        by auto
      with 0 sl have "issued S w (snd ?again)" by (blast intro: issued_trans)
      moreover have "wait_pvc_loop p s t w = ?again"
        using True r retry by (auto simp: wait_pvc_loop.simps [of p s t w])
      ultimately show ?thesis by simp
    next
      case False
      then have "snd (wait_pvc_loop p s t w) = w1"
        using True r
        by (auto simp: wait_pvc_loop.simps [of p s t w] split: sum.split error.split)
      with 0 show ?thesis by simp
    qed
  qed
qed

lemma issues_wait_for_pvc_bound:
  "(Read, PersistentVolumeClaim, p) \<in> S \<Longrightarrow> issues S (wait_for_pvc_bound p t)"
  unfolding issues_def wait_for_pvc_bound_def by (simp add: issued_wait_pvc_loop)

lemma issues_create_pvc:
  "{(Create, PersistentVolumeClaim, d), (Read, PersistentVolumeClaim, d)} \<subseteq> S \<Longrightarrow>
   issues S (create_persistent_volume_claim d cap)"
  unfolding create_persistent_volume_claim_def
  by (auto intro!: issues_and_then issues_respond issues_wait_for_pvc_bound)

lemma issues_job_poll: "poll_requests j \<subseteq> S \<Longrightarrow> issues S (job_poll j)"
proof -
  assume S: "poll_requests j \<subseteq> S"
  have rd: "issues S (read_job_status j)"
    unfolding issues_def
  proof
    fix w :: world
    have "issues S (and_then (respond Read Job j) (\<lambda>_. succeed (job_at w (length (calls w)))))"
      using S by (intro issues_intros) (auto simp: poll_requests_def)
    then show "issued S w (snd (read_job_status j w))"
      unfolding issues_def read_job_status_def by blast
  qed
  have ls: "issues S (list_pods (''job-name='' @ j))"
    unfolding issues_def
  proof
    fix w :: world
    have "issues S (and_then (respond ListPods Pod (''job-name='' @ j))
                     (\<lambda>_. succeed (pods_at w (length (calls w)))))"
      using S by (intro issues_intros) (auto simp: poll_requests_def)
    then show "issued S w (snd (list_pods (''job-name='' @ j) w))"
      unfolding issues_def list_pods_def by blast
  qed
  have lg: "\<And>n. issues S (respond ReadLog Pod n)"
    using S by (intro issues_respond) (auto simp: poll_requests_def)
  show ?thesis
    unfolding job_poll_def
    using ls lg
    by (intro issues_and_then rd)
       (auto intro!: issues_and_then issues_succeed issues_raise split: list.split)
qed

lemma issued_wait_job_loop:
  "poll_requests j \<subseteq> S \<Longrightarrow> issued S w (snd (wait_job_loop j s t w))"
proof (induction j s t w rule: wait_job_loop.induct)
  case (1 j s t w)
  note S = "1.prems"
  show ?case
  proof (cases "now w - s < t")
    case False
    then show ?thesis by (simp add: wait_job_loop.simps [of j s t w] issued_refl)
  next
    case True
    obtain r w1 where r: "job_poll j w = (r, w1)" by (cases "job_poll j w")
    have 0: "issued S w w1" using issues_job_poll [OF S] r unfolding issues_def by (metis snd_conv)
    have sl: "issued S w1 (snd (sleep 2 w1))" by (rule issued_sleep) simp
    let ?again = "wait_job_loop j s t (snd (sleep 2 w1))"
    show ?thesis
    proof (cases "r = Inr False \<or> r = Inl (ApiException 404)")
      case retry: True
      then have "issued S (snd (sleep 2 w1)) (snd ?again)"
        using "1.IH" (1) [OF True r [symmetric] _ refl _ S, of 404]
          "1.IH" (2) [OF True r [symmetric] _ _ S, of False]
        by auto
      with 0 sl have "issued S w (snd ?again)" by (blast intro: issued_trans)
      moreover have "wait_job_loop j s t w = ?again"
        using True r retry by (auto simp: wait_job_loop.simps [of j s t w])
      ultimately show ?thesis by simp
    next
      case False
      then have "snd (wait_job_loop j s t w) = w1"
        using True r
        by (auto simp: wait_job_loop.simps [of j s t w] split: sum.split error.split)
      with 0 show ?thesis by simp
    qed
  qed
qed

lemma issues_create_job:
  "task_requests (''create-nfs-dir-'' @ d) \<subseteq> S \<Longrightarrow> issues S (create_nfs_directory_job d)"
proof -
  assume S: "task_requests (''create-nfs-dir-'' @ d) \<subseteq> S"
  have "poll_requests (''create-nfs-dir-'' @ d) \<subseteq> S"
    using S unfolding task_requests_def poll_requests_def by blast
  then have w: "issues S (wait_for_job_completion (''create-nfs-dir-'' @ d) 60)"
    using issued_wait_job_loop by (simp add: issues_def wait_for_job_completion_def)
  have m: "(Delete, Job, ''create-nfs-dir-'' @ d) \<in> S" "(Create, Job, ''create-nfs-dir-'' @ d) \<in> S"
    using S by (auto simp: task_requests_def)
  show ?thesis
    unfolding create_nfs_directory_job_def Let_def
    using w m by (auto intro!: issues_intros split: error.split)
qed

lemma issues_ensure_storage:
  assumes S: "storage_requests d \<subseteq> S"
  shows "issues S (ensure_storage d cap)"
proof -
  have 1: "(Read, PersistentVolumeClaim, d) \<in> S"
    using S unfolding storage_requests_def by blast
  have 2: "task_requests (''create-nfs-dir-'' @ d) \<subseteq> S"
    using S unfolding storage_requests_def by blast
  have 3: "{(Read, PersistentVolume, ''pv-'' @ d), (Create, PersistentVolume, ''pv-'' @ d)} \<subseteq> S"
    using S unfolding storage_requests_def by blast
  have 4: "{(Create, PersistentVolumeClaim, d), (Read, PersistentVolumeClaim, d)} \<subseteq> S"
    using S unfolding storage_requests_def by blast
  have "issues S (if \<not> present then
         and_then (create_nfs_directory_job d) (\<lambda>_.
         and_then (create_persistent_volume d cap) (\<lambda>_.
         create_persistent_volume_claim d cap))
       else succeed ())" for present
    by (cases present)
       (simp_all add: issues_succeed issues_and_then issues_create_job [OF 2]
          issues_create_pv [OF 3] issues_create_pvc [OF 4])
  then show ?thesis
    unfolding ensure_storage_def by (intro issues_and_then issues_pvc_exists [OF 1])
qed

lemma issues_create_ingress:
  assumes "(Create, Ingress, ''servertap-'' @ p @ ''-ingress'') \<in> S"
  shows "issues S (create_ingress p)"
  unfolding issues_def
proof
  fix w :: world
  have "issues S (record_route n h)" for n h
    by (simp add: issues_def record_route_def issued_def same_oracle_def)
  then have "issues S (and_then (respond Create Ingress (''servertap-'' @ p @ ''-ingress''))
               (\<lambda>_. record_route (''servertap-'' @ p @ ''-ingress'')
                      (p @ ''-api.'' @ GAME_DOMAIN w)))"
    using assms by (intro issues_and_then issues_respond)
  then show "issued S w (snd (create_ingress p w))"
    unfolding issues_def create_ingress_def Let_def by blast
qed

lemma issues_provision:
  assumes S: "provision_requests (sanitize_name pod) (sanitize_name pvc) \<subseteq> S"
  shows "issues S (create_minecraft_resources pod pvc key ml mr cl cr cap)"
proof -
  let ?s = "sanitize_name pod"
  have fin: "issues S (\<lambda>w. succeed (f w) w)" for f :: "world \<Rightarrow> response"
    by (simp add: issues_def succeed_def issued_refl)
  have d: "Pair Delete ` ephemeral_set ?s \<subseteq> S"
    using S unfolding provision_requests_def by blast
  have p: "{(Read, shared_config), (Patch, shared_config), (Create, shared_config)} \<subseteq> S"
    using S unfolding provision_requests_def by blast
  have st: "storage_requests (sanitize_name pvc) \<subseteq> S"
    using S unfolding provision_requests_def by blast
  have c: "Pair Create ` ephemeral_set ?s \<subseteq> S"
    using S unfolding provision_requests_def by blast
  have c1: "(Create, ConfigMap, ''servertap-config-'' @ ?s) \<in> S"
    and c2: "(Create, Deployment, ?s) \<in> S"
    and c3: "(Create, Service, ?s @ ''-svc'') \<in> S"
    and c4: "(Create, Ingress, ''servertap-'' @ ?s @ ''-ingress'') \<in> S"
    using c unfolding ephemeral_set_def by blast+
  show ?thesis
    unfolding create_minecraft_resources_def Let_def create_servertap_configmap_def
      create_deployment_def create_service_def
    by (intro issues_and_then issues_cleanup [OF d] issues_paper [OF p]
        issues_ensure_storage [OF st] issues_create_ingress [OF c4] issues_respond c1 c2 c3 fin)
qed

section \<open>The pause endpoint\<close>

text \<open>
  Claim C1 says that pausing succeeds with an acknowledgement. The endpoint calls a
  manager function \<open>pause_server\<close> that the class does not have, so for every server
  identity and every world it fails with status 500 and sends no request: nothing is
  deleted.
\<close>

theorem pause_server_always_fails:
  "api_pause_server pod_name w = (Inl (HTTPException 500 (AttributeError ''pause_server'')), w)"
  by (simp add: api_pause_server_def MinecraftServerManager_getattr_def try_except_def raise_def)

section \<open>Provisioning and the durable resources\<close>

lemma issued_new_calls: "issued S w w' \<Longrightarrow> set (new_calls w w') \<subseteq> S"
  unfolding issued_def new_calls_def by auto

lemma issued_kept: "issued S w w' \<Longrightarrow> ob \<in> objects w \<Longrightarrow> (Delete, ob) \<notin> S \<Longrightarrow> ob \<in> objects w'"
  unfolding issued_def by blast

lemma issued_old: "issued S w w' \<Longrightarrow> ob \<in> objects w' \<Longrightarrow> (Create, ob) \<notin> S \<Longrightarrow> ob \<in> objects w"
  unfolding issued_def by blast

lemma issues_create_server:
  "issues (provision_requests (sanitize_name pod) (sanitize_name pvc)
             \<union> Pair Delete ` ephemeral_set pod)
     (create_server pod pvc key ml mr cl cr cap)"
  unfolding create_server_def
  by (intro issues_try_except issues_provision issues_and_then issues_cleanup issues_raise) auto

lemma durable_not_deleted:
  "durable ob \<Longrightarrow>
   (Delete, ob) \<notin> provision_requests s d \<union> Pair Delete ` ephemeral_set p"
  by (auto simp: durable_def provision_requests_def storage_requests_def task_requests_def
        ephemeral_set_def shared_config_def)

text \<open>
  Claim C6. Whatever happens in a provisioning call (\<open>create_server\<close>, with its
  compensation on failure), every durable volume, volume claim and the shared config
  object that existed before exists after, and no request of the call is a delete of one
  of them. The ephemeral cleanup for an identity \<open>p\<close> sends only deletes of the
  workload, network endpoint, route and per-server config object of \<open>p\<close>, creates
  nothing, and removes nothing else.
\<close>

theorem provisioning_keeps_durable_resources:
  "{ob \<in> objects w. durable ob} \<subseteq> objects (snd (create_server pod pvc key ml mr cl cr cap w))
   \<and> set (new_calls w (snd (create_server pod pvc key ml mr cl cr cap w)))
       \<inter> Pair Delete ` {ob. durable ob} = {}
   \<and> set (new_calls w (snd (cleanup_ephemeral_resources p w))) \<subseteq> Pair Delete ` ephemeral_set p
   \<and> objects (snd (cleanup_ephemeral_resources p w)) \<subseteq> objects w
   \<and> objects w - objects (snd (cleanup_ephemeral_resources p w)) \<subseteq> ephemeral_set p"
proof -
  let ?S = "provision_requests (sanitize_name pod) (sanitize_name pvc)
              \<union> Pair Delete ` ephemeral_set pod"
  let ?w' = "snd (create_server pod pvc key ml mr cl cr cap w)"
  let ?w'' = "snd (cleanup_ephemeral_resources p w)"
  have 1: "issued ?S w ?w'" using issues_create_server unfolding issues_def by blast
  have 2: "issued (Pair Delete ` ephemeral_set p) w ?w''"
    using issues_cleanup [of p "Pair Delete ` ephemeral_set p"] unfolding issues_def by blast
  have a: "{ob \<in> objects w. durable ob} \<subseteq> objects ?w'"
    using issued_kept [OF 1] durable_not_deleted by blast
  have b: "set (new_calls w ?w') \<inter> Pair Delete ` {ob. durable ob} = {}"
    using issued_new_calls [OF 1] durable_not_deleted by blast
  have c: "set (new_calls w ?w'') \<subseteq> Pair Delete ` ephemeral_set p"
    by (rule issued_new_calls [OF 2])
  have d: "objects ?w'' \<subseteq> objects w"
    using issued_old [OF 2] by auto
  have e: "objects w - objects ?w'' \<subseteq> ephemeral_set p"
    using issued_kept [OF 2] by auto
  from a b c d e show ?thesis by blast
qed

section \<open>Compensation after a failed provisioning\<close>

text \<open>
  Claim C2 says that after a failed provisioning the ephemeral resources of the identity
  are gone and the original failure is raised again. The compensation in
  \<open>create_server\<close> is called with the name as the caller gave it, while the resources
  were created under the normalized name. Here the caller's name is \<open>My-Server\<close> and
  the creation of the network endpoint fails: the original failure is raised, but the
  four deletes of the compensation go to names nothing was created under, and the
  workload and the per-server config object of \<open>my-server\<close> stay. In the second world
  the compensation itself fails, and its failure (503) is raised in place of the original
  one (500).
\<close>

theorem rollback_uses_raw_name:
  "fst (create_server ''My-Server'' ''data'' ''key'' ''3Gi'' ''3Gi'' ''2'' ''2'' ''10Gi''
          world_service_fails) = Inl (ApiException 500)
   \<and> (Deployment, ''my-server'')
       \<in> objects (snd (create_server ''My-Server'' ''data'' ''key'' ''3Gi'' ''3Gi'' ''2'' ''2''
                         ''10Gi'' world_service_fails))
   \<and> (ConfigMap, ''servertap-config-my-server'')
       \<in> objects (snd (create_server ''My-Server'' ''data'' ''key'' ''3Gi'' ''3Gi'' ''2'' ''2''
                         ''10Gi'' world_service_fails))
   \<and> drop 10 (calls (snd (create_server ''My-Server'' ''data'' ''key'' ''3Gi'' ''3Gi'' ''2''
                         ''2'' ''10Gi'' world_service_fails)))
       = [(Delete, Deployment, ''My-Server''), (Delete, Service, ''My-Server-svc''),
          (Delete, Ingress, ''servertap-My-Server-ingress''),
          (Delete, ConfigMap, ''servertap-config-My-Server'')]
   \<and> fst (create_server ''My-Server'' ''data'' ''key'' ''3Gi'' ''3Gi'' ''2'' ''2'' ''10Gi''
          world_cleanup_fails) = Inl (ApiException 503)"
  by code_simp

section \<open>A failed task whose log cannot be read\<close>

text \<open>
  Claim C4 says that a failure of the log fetch does not replace the task failure. The
  log fetch sits inside the \<open>try\<close> of the wait without a handler of its own: with the
  task seen failed and the read of the log failing with status 500, the wait raises that
  \<open>ApiException\<close>, not the task failure. Without the fault the same wait raises the
  task failure.
\<close>

theorem log_failure_replaces_task_failure:
  "fst (wait_for_job_completion ''j'' 60 world_log_fails) = Inl (ApiException 500)
   \<and> fst (wait_for_job_completion ''j'' 60 (world_log_fails\<lparr>fault_at := (\<lambda>_. None)\<rparr>))
       = Inl (JobFailed ''j'')
   \<and> calls (snd (wait_for_job_completion ''j'' 60 world_log_fails))
       = [(Read, Job, ''j''), (ListPods, Pod, ''job-name=j''), (ReadLog, Pod, ''p'')]"
  by code_simp

section \<open>What a successful provisioning leaves\<close>

lemma and_then_Inr:
  "and_then m f w = (Inr r, w') \<Longrightarrow> \<exists>x w1. m w = (Inr x, w1) \<and> f x w1 = (Inr r, w')"
  by (auto simp: and_then_def split: prod.splits sum.splits)

lemma issuesD: "issues S m \<Longrightarrow> m w = (r, w') \<Longrightarrow> issued S w w'"
  unfolding issues_def by (metis snd_conv)

lemma respond_create_Inr:
  "respond Create k n w = (Inr u, w') \<Longrightarrow> objects w' = insert (k, n) (objects w)"
  by (auto simp: respond_def Let_def split: option.splits if_splits)

lemma create_ingress_Inr:
  assumes "create_ingress p w = (Inr u, w')"
  shows "objects w' = insert (Ingress, ''servertap-'' @ p @ ''-ingress'') (objects w)"
    and "route_host w' (''servertap-'' @ p @ ''-ingress'') = Some (p @ ''-api.'' @ GAME_DOMAIN w)"
  using assms
  by (auto simp: create_ingress_def Let_def and_then_def record_route_def
        split: prod.splits sum.splits dest!: respond_create_Inr)

lemma respond_read_Inr:
  "respond Read k n w = (Inr u, w') \<Longrightarrow> (k, n) \<in> objects w \<and> objects w' = objects w"
  by (auto simp: respond_def Let_def split: option.splits if_splits)

lemma pvc_exists_True:
  "pvc_exists d w = (Inr True, w') \<Longrightarrow> (PersistentVolumeClaim, d) \<in> objects w'"
  unfolding pvc_exists_def try_except_def and_then_def succeed_def raise_def
  by (auto split: prod.splits sum.splits error.splits if_splits dest!: respond_read_Inr)

lemma create_pvc_Inr:
  assumes "create_persistent_volume_claim d cap w = (Inr u, w')"
  shows "(PersistentVolumeClaim, d) \<in> objects w'"
proof -
  from assms obtain x w1 where 1: "respond Create PersistentVolumeClaim d w = (Inr x, w1)"
    and 2: "wait_for_pvc_bound d 60 w1 = (Inr u, w')"
    unfolding create_persistent_volume_claim_def by (blast dest: and_then_Inr)
  from 1 have "(PersistentVolumeClaim, d) \<in> objects w1" by (auto dest: respond_create_Inr)
  moreover have "issued {(Read, PersistentVolumeClaim, d)} w1 w'"
    using issues_wait_for_pvc_bound [of d "{(Read, PersistentVolumeClaim, d)}" 60] 2
    by (auto dest: issuesD)
  ultimately show ?thesis by (auto dest: issued_kept)
qed

lemma ensure_storage_Inr:
  assumes "ensure_storage d cap w = (Inr u, w')"
  shows "(PersistentVolumeClaim, d) \<in> objects w'"
proof -
  from assms obtain present w1 where 1: "pvc_exists d w = (Inr present, w1)"
    and 2: "(if \<not> present then
         and_then (create_nfs_directory_job d) (\<lambda>_.
         and_then (create_persistent_volume d cap) (\<lambda>_.
         create_persistent_volume_claim d cap))
       else succeed ()) w1 = (Inr u, w')"
    unfolding ensure_storage_def by (blast dest: and_then_Inr)
  show ?thesis
  proof (cases present)
    case True
    with 1 2 show ?thesis by (auto simp: succeed_def dest: pvc_exists_True)
  next
    case False
    with 2 obtain w3 where "create_persistent_volume_claim d cap w3 = (Inr u, w')"
      by (auto dest!: and_then_Inr)
    then show ?thesis by (rule create_pvc_Inr)
  qed
qed

lemma provision_Inr:
  assumes ok: "create_minecraft_resources pod pvc key ml mr cl cr cap w = (Inr res, w')"
  shows "res = [(''status'', ''success''),
                (''pod_name'', sanitize_name pod),
                (''pvc_name'', sanitize_name pvc),
                (''game_url'', sanitize_name pod @ ''.'' @ GAME_DOMAIN w),
                (''api_url'', ''http://'' @ sanitize_name pod @ ''-api.'' @ GAME_DOMAIN w)]"
    and "ephemeral_set (sanitize_name pod) \<subseteq> objects w'"
    and "(PersistentVolumeClaim, sanitize_name pvc) \<in> objects w'"
proof -
  let ?s = "sanitize_name pod" and ?d = "sanitize_name pvc"
  from ok obtain w3 w4 w5 w6 w7 where
    cm: "respond Create ConfigMap (''servertap-config-'' @ ?s) w3 = (Inr (), w4)"
    and st: "ensure_storage ?d cap w4 = (Inr (), w5)"
    and dp: "respond Create Deployment ?s w5 = (Inr (), w6)"
    and sv: "respond Create Service (?s @ ''-svc'') w6 = (Inr (), w7)"
    and ig: "create_ingress ?s w7 = (Inr (), w')"
    and res: "res = [(''status'', ''success''),
                (''pod_name'', ?s),
                (''pvc_name'', ?d),
                (''game_url'', ?s @ ''.'' @ GAME_DOMAIN w'),
                (''api_url'', ''http://'' @ ?s @ ''-api.'' @ GAME_DOMAIN w')]"
    unfolding create_minecraft_resources_def Let_def create_servertap_configmap_def
      create_deployment_def create_service_def
    by (fastforce dest!: and_then_Inr simp: succeed_def)
  have "issued UNIV w w'"
    by (rule issuesD [OF issues_provision ok]) simp
  then have "GAME_DOMAIN w' = GAME_DOMAIN w" by (simp add: issued_def same_oracle_def)
  with res show "res = [(''status'', ''success''),
                (''pod_name'', sanitize_name pod),
                (''pvc_name'', sanitize_name pvc),
                (''game_url'', sanitize_name pod @ ''.'' @ GAME_DOMAIN w),
                (''api_url'', ''http://'' @ sanitize_name pod @ ''-api.'' @ GAME_DOMAIN w)]"
    by simp
  have 4: "(ConfigMap, ''servertap-config-'' @ ?s) \<in> objects w4"
    using cm by (auto dest: respond_create_Inr)
  have "issued (storage_requests ?d) w4 w5"
    using issues_ensure_storage [of ?d "storage_requests ?d" cap] st by (auto dest: issuesD)
  moreover have "(Delete, ConfigMap, ''servertap-config-'' @ ?s) \<notin> storage_requests ?d"
    by (auto simp: storage_requests_def task_requests_def)
  ultimately have 5: "(ConfigMap, ''servertap-config-'' @ ?s) \<in> objects w5"
    using 4 by (blast dest: issued_kept)
  have p5: "(PersistentVolumeClaim, ?d) \<in> objects w5" using st by (rule ensure_storage_Inr)
  have o6: "objects w6 = insert (Deployment, ?s) (objects w5)"
    using dp by (rule respond_create_Inr)
  have o7: "objects w7 = insert (Service, ?s @ ''-svc'') (objects w6)"
    using sv by (rule respond_create_Inr)
  have o8: "objects w' = insert (Ingress, ''servertap-'' @ ?s @ ''-ingress'') (objects w7)"
    using ig by (rule create_ingress_Inr (1))
  show "ephemeral_set ?s \<subseteq> objects w'"
    using 5 o6 o7 o8 unfolding ephemeral_set_def by blast
  show "(PersistentVolumeClaim, ?d) \<in> objects w'"
    using p5 o6 o7 o8 by blast
qed

lemma pvc_exists_objects: "pvc_exists d w = (r, w1) \<Longrightarrow> objects w1 = objects w"
  by (auto simp: pvc_exists_def try_except_def and_then_def succeed_def raise_def respond_def
        Let_def split: option.splits if_splits)

lemma create_job_Inr:
  assumes "create_nfs_directory_job d w = (Inr u, w')"
  shows "(Job, ''create-nfs-dir-'' @ d) \<in> objects w'"
proof -
  let ?j = "''create-nfs-dir-'' @ d"
  from assms obtain wa wb where c: "respond Create Job ?j wa = (Inr (), wb)"
    and wt: "wait_for_job_completion ?j 60 wb = (Inr u, w')"
    unfolding create_nfs_directory_job_def Let_def by (fastforce dest!: and_then_Inr)
  from c have "(Job, ?j) \<in> objects wb" by (auto dest: respond_create_Inr)
  moreover have "issued (poll_requests ?j) wb w'"
    using issued_wait_job_loop [OF subset_refl, of ?j wb "now wb" 60] wt
    by (simp add: wait_for_job_completion_def)
  moreover have "(Delete, Job, ?j) \<notin> poll_requests ?j" by (auto simp: poll_requests_def)
  ultimately show ?thesis by (blast dest: issued_kept)
qed

lemma create_pv_Inr:
  assumes "create_persistent_volume d cap w = (Inr u, w')"
  shows "(PersistentVolume, ''pv-'' @ d) \<in> objects w'"
  using assms
  by (auto simp: create_persistent_volume_def Let_def and_then_def try_except_def succeed_def
        raise_def split: prod.splits sum.splits error.splits if_splits
        dest!: respond_read_Inr respond_create_Inr)

lemma ensure_storage_fresh:
  assumes ok: "ensure_storage d cap w = (Inr u, w')"
    and fresh: "(PersistentVolumeClaim, d) \<notin> objects w"
  shows "(PersistentVolume, ''pv-'' @ d) \<in> objects w'"
    and "(Job, ''create-nfs-dir-'' @ d) \<in> objects w'"
proof -
  let ?j = "''create-nfs-dir-'' @ d"
  from ok obtain present w1 where 1: "pvc_exists d w = (Inr present, w1)"
    and 2: "(if \<not> present then
         and_then (create_nfs_directory_job d) (\<lambda>_.
         and_then (create_persistent_volume d cap) (\<lambda>_.
         create_persistent_volume_claim d cap))
       else succeed ()) w1 = (Inr u, w')"
    unfolding ensure_storage_def by (blast dest: and_then_Inr)
  have "\<not> present"
  proof
    assume present
    with 1 have "(PersistentVolumeClaim, d) \<in> objects w1" by (auto dest: pvc_exists_True)
    with pvc_exists_objects [OF 1] fresh show False by simp
  qed
  with 2 obtain w2 w3 where j: "create_nfs_directory_job d w1 = (Inr (), w2)"
    and v: "create_persistent_volume d cap w2 = (Inr (), w3)"
    and c: "create_persistent_volume_claim d cap w3 = (Inr u, w')"
    by (fastforce dest!: and_then_Inr)
  have j2: "(Job, ?j) \<in> objects w2" using j by (rule create_job_Inr)
  have i3: "issued {(Read, PersistentVolume, ''pv-'' @ d), (Create, PersistentVolume, ''pv-'' @ d)} w2 w3"
    by (rule issuesD [OF issues_create_pv v]) simp
  have j3: "(Job, ?j) \<in> objects w3" by (rule issued_kept [OF i3 j2]) simp
  have v3: "(PersistentVolume, ''pv-'' @ d) \<in> objects w3" using v by (rule create_pv_Inr)
  have i4: "issued {(Create, PersistentVolumeClaim, d), (Read, PersistentVolumeClaim, d)} w3 w'"
    by (rule issuesD [OF issues_create_pvc c]) simp
  show "(PersistentVolume, ''pv-'' @ d) \<in> objects w'" by (rule issued_kept [OF i4 v3]) simp
  show "(Job, ?j) \<in> objects w'" by (rule issued_kept [OF i4 j3]) simp
qed

lemma provision_Inr_fresh:
  assumes ok: "create_minecraft_resources pod pvc key ml mr cl cr cap w = (Inr res, w')"
  shows "route_host w' (''servertap-'' @ sanitize_name pod @ ''-ingress'')
           = Some (sanitize_name pod @ ''-api.'' @ GAME_DOMAIN w)"
    and "(PersistentVolumeClaim, sanitize_name pvc) \<notin> objects w \<Longrightarrow>
         (PersistentVolume, ''pv-'' @ sanitize_name pvc) \<in> objects w'
         \<and> (Job, ''create-nfs-dir-'' @ sanitize_name pvc) \<in> objects w'"
proof -
  let ?s = "sanitize_name pod" and ?d = "sanitize_name pvc"
  let ?S = "Pair Delete ` ephemeral_set ?s
            \<union> {(Read, shared_config), (Patch, shared_config), (Create, shared_config)}
            \<union> {(Create, ConfigMap, ''servertap-config-'' @ ?s)}"
  from ok obtain x1 w1 w2 w4 w5 w6 w7 where
    cl: "cleanup_ephemeral_resources ?s w = (Inr x1, w1)"
    and pa: "create_or_update_paper_configmap w1 = (Inr (), w2)"
    and cm: "respond Create ConfigMap (''servertap-config-'' @ ?s) w2 = (Inr (), w4)"
    and st: "ensure_storage ?d cap w4 = (Inr (), w5)"
    and dp: "respond Create Deployment ?s w5 = (Inr (), w6)"
    and sv: "respond Create Service (?s @ ''-svc'') w6 = (Inr (), w7)"
    and ig: "create_ingress ?s w7 = (Inr (), w')"
    unfolding create_minecraft_resources_def Let_def create_servertap_configmap_def
      create_deployment_def create_service_def
    by (fastforce dest!: and_then_Inr simp: succeed_def)
  have a1: "issued ?S w w1" by (rule issuesD [OF issues_cleanup cl]) blast
  have a2: "issued ?S w1 w2" by (rule issuesD [OF issues_paper pa]) blast
  have a4: "issued ?S w2 w4" by (rule issuesD [OF issues_respond cm]) blast
  have a: "issued ?S w w4" by (rule issued_trans [OF issued_trans [OF a1 a2] a4])
  have "issued UNIV w w7"
  proof -
    have "issued UNIV w w4" by (rule issued_mono [OF _ a]) simp
    moreover have "issued UNIV w4 w5" by (rule issuesD [OF issues_ensure_storage st]) simp
    moreover have "issued UNIV w5 w6" by (rule issuesD [OF issues_respond dp]) simp
    moreover have "issued UNIV w6 w7" by (rule issuesD [OF issues_respond sv]) simp
    ultimately show ?thesis by (blast intro: issued_trans)
  qed
  then have "GAME_DOMAIN w7 = GAME_DOMAIN w" by (simp add: issued_def same_oracle_def)
  with create_ingress_Inr (2) [OF ig]
  show "route_host w' (''servertap-'' @ ?s @ ''-ingress'') = Some (?s @ ''-api.'' @ GAME_DOMAIN w)"
    by simp
  show "(PersistentVolume, ''pv-'' @ ?d) \<in> objects w' \<and> (Job, ''create-nfs-dir-'' @ ?d) \<in> objects w'"
    if fresh: "(PersistentVolumeClaim, ?d) \<notin> objects w"
  proof -
    have "(Create, PersistentVolumeClaim, ?d) \<notin> ?S"
      by (auto simp: ephemeral_set_def shared_config_def)
    with a fresh have "(PersistentVolumeClaim, ?d) \<notin> objects w4" by (blast dest: issued_old)
    from ensure_storage_fresh [OF st this]
    have 5: "(PersistentVolume, ''pv-'' @ ?d) \<in> objects w5" "(Job, ''create-nfs-dir-'' @ ?d) \<in> objects w5" .
    have "objects w5 \<subseteq> objects w'"
      using respond_create_Inr [OF dp] respond_create_Inr [OF sv] create_ingress_Inr (1) [OF ig]
      by blast
    with 5 show ?thesis by blast
  qed
qed

section \<open>Names\<close>

text \<open>
  Claim C5, as it is stated, gives the management address returned by a successful
  provisioning as \<open><s>-api.<domain>\<close>. The code returns it with the scheme in front:
  on a fresh cluster, provisioning the server \<open>a\<close> returns
  \<open>http://a-api.mc.msdca.shop\<close>.
\<close>

theorem management_address_counterexample:
  "(case fst (create_minecraft_resources ''a'' ''d'' ''key'' ''3Gi'' ''3Gi'' ''2'' ''2'' ''10Gi''
               fresh_world) of
      Inr res \<Rightarrow> map_of res ''api_url'' \<noteq> Some (''a'' @ ''-api.'' @ GAME_DOMAIN fresh_world)
    | Inl e \<Rightarrow> False)"
  by code_simp

text \<open>
  Claim C5, amended. With \<open>s\<close> and \<open>d\<close> the normalized server and storage identities,
  every request of a provisioning is one of \<open>provision_requests s d\<close>, which names the
  durable volume \<open>pv-<d>\<close>, the network endpoint \<open><s>-svc\<close>, the route
  \<open>servertap-<s>-ingress\<close>, the per-server config object \<open>servertap-config-<s>\<close> and
  the directory task \<open>create-nfs-dir-<d>\<close>. After a successful provisioning the workload,
  the network endpoint, the route and the per-server config object exist under these
  names, the claim \<open>d\<close> exists, the route has the host \<open><s>-api.<domain>\<close>, and, if the
  claim did not exist before, the volume \<open>pv-<d>\<close> and the task
  \<open>create-nfs-dir-<d>\<close> exist. The call returns the game address \<open><s>.<domain>\<close> and
  the management address \<open>http://<s>-api.<domain>\<close>.
\<close>

theorem provision_names:
  "set (new_calls w (snd (create_minecraft_resources pod pvc key ml mr cl cr cap w)))
     \<subseteq> provision_requests (sanitize_name pod) (sanitize_name pvc)
   \<and> (create_minecraft_resources pod pvc key ml mr cl cr cap w = (Inr res, w') \<longrightarrow>
        res = [(''status'', ''success''),
               (''pod_name'', sanitize_name pod),
               (''pvc_name'', sanitize_name pvc),
               (''game_url'', sanitize_name pod @ ''.'' @ GAME_DOMAIN w),
               (''api_url'', ''http://'' @ sanitize_name pod @ ''-api.'' @ GAME_DOMAIN w)]
        \<and> ephemeral_set (sanitize_name pod) \<subseteq> objects w'
        \<and> (PersistentVolumeClaim, sanitize_name pvc) \<in> objects w'
        \<and> route_host w' (''servertap-'' @ sanitize_name pod @ ''-ingress'')
            = Some (sanitize_name pod @ ''-api.'' @ GAME_DOMAIN w)
        \<and> ((PersistentVolumeClaim, sanitize_name pvc) \<notin> objects w \<longrightarrow>
             (PersistentVolume, ''pv-'' @ sanitize_name pvc) \<in> objects w'
             \<and> (Job, ''create-nfs-dir-'' @ sanitize_name pvc) \<in> objects w'))"
proof -
  have "issues (provision_requests (sanitize_name pod) (sanitize_name pvc))
          (create_minecraft_resources pod pvc key ml mr cl cr cap)"
    by (rule issues_provision) simp
  then have "issued (provision_requests (sanitize_name pod) (sanitize_name pvc)) w
               (snd (create_minecraft_resources pod pvc key ml mr cl cr cap w))"
    unfolding issues_def by blast
  then have 1: "set (new_calls w (snd (create_minecraft_resources pod pvc key ml mr cl cr cap w)))
     \<subseteq> provision_requests (sanitize_name pod) (sanitize_name pvc)"
    by (rule issued_new_calls)
  show ?thesis
  proof (intro conjI impI)
    assume ok: "create_minecraft_resources pod pvc key ml mr cl cr cap w = (Inr res, w')"
    show "res = [(''status'', ''success''),
               (''pod_name'', sanitize_name pod),
               (''pvc_name'', sanitize_name pvc),
               (''game_url'', sanitize_name pod @ ''.'' @ GAME_DOMAIN w),
               (''api_url'', ''http://'' @ sanitize_name pod @ ''-api.'' @ GAME_DOMAIN w)]"
      by (rule provision_Inr (1) [OF ok])
    show "ephemeral_set (sanitize_name pod) \<subseteq> objects w'"
      by (rule provision_Inr (2) [OF ok])
    show "(PersistentVolumeClaim, sanitize_name pvc) \<in> objects w'"
      by (rule provision_Inr (3) [OF ok])
    show "route_host w' (''servertap-'' @ sanitize_name pod @ ''-ingress'')
            = Some (sanitize_name pod @ ''-api.'' @ GAME_DOMAIN w)"
      by (rule provision_Inr_fresh (1) [OF ok])
    assume fresh: "(PersistentVolumeClaim, sanitize_name pvc) \<notin> objects w"
    from provision_Inr_fresh (2) [OF ok fresh]
    show "(PersistentVolume, ''pv-'' @ sanitize_name pvc) \<in> objects w'"
      and "(Job, ''create-nfs-dir-'' @ sanitize_name pvc) \<in> objects w'"
      by simp_all
  qed (rule 1)
qed

theorem provision_names_witness:
  "create_minecraft_resources ''A'' ''d'' ''key'' ''3Gi'' ''3Gi'' ''2'' ''2'' ''10Gi'' fresh_world
     = (Inr [(''status'', ''success''), (''pod_name'', ''a''), (''pvc_name'', ''d''),
             (''game_url'', ''a.mc.msdca.shop''), (''api_url'', ''http://a-api.mc.msdca.shop'')],
        snd (create_minecraft_resources ''A'' ''d'' ''key'' ''3Gi'' ''3Gi'' ''2'' ''2'' ''10Gi''
               fresh_world))
   \<and> ephemeral_set ''a''
       \<subseteq> objects (snd (create_minecraft_resources ''A'' ''d'' ''key'' ''3Gi'' ''3Gi'' ''2'' ''2''
                          ''10Gi'' fresh_world))
   \<and> route_host (snd (create_minecraft_resources ''A'' ''d'' ''key'' ''3Gi'' ''3Gi'' ''2'' ''2''
                          ''10Gi'' fresh_world)) ''servertap-a-ingress''
       = Some ''a-api.mc.msdca.shop''
   \<and> (PersistentVolume, ''pv-d'')
       \<in> objects (snd (create_minecraft_resources ''A'' ''d'' ''key'' ''3Gi'' ''3Gi'' ''2'' ''2''
                          ''10Gi'' fresh_world))
   \<and> (Job, ''create-nfs-dir-d'')
       \<in> objects (snd (create_minecraft_resources ''A'' ''d'' ''key'' ''3Gi'' ''3Gi'' ''2'' ''2''
                          ''10Gi'' fresh_world))"
proof -
  let ?run = "create_minecraft_resources ''A'' ''d'' ''key'' ''3Gi'' ''3Gi'' ''2'' ''2'' ''10Gi''
                fresh_world"
  have "fst ?run = Inr [(''status'', ''success''), (''pod_name'', ''a''), (''pvc_name'', ''d''),
             (''game_url'', ''a.mc.msdca.shop''), (''api_url'', ''http://a-api.mc.msdca.shop'')]"
    by code_simp
  then have run: "?run = (Inr [(''status'', ''success''), (''pod_name'', ''a''),
             (''pvc_name'', ''d''), (''game_url'', ''a.mc.msdca.shop''),
             (''api_url'', ''http://a-api.mc.msdca.shop'')], snd ?run)"
    by (metis prod.collapse)
  have s: "sanitize_name ''A'' = ''a''" "sanitize_name ''d'' = ''d''" by code_simp+
  have f: "(PersistentVolumeClaim, ''d'') \<notin> objects fresh_world"
    "GAME_DOMAIN fresh_world = ''mc.msdca.shop''"
    by (simp_all add: fresh_world_def)
  note t = provision_names [where w = fresh_world and pod = "''A''" and pvc = "''d''"
      and key = "''key''" and ml = "''3Gi''" and mr = "''3Gi''" and cl = "''2''" and cr = "''2''"
      and cap = "''10Gi''" and w' = "snd ?run"
      and res = "[(''status'', ''success''), (''pod_name'', ''a''), (''pvc_name'', ''d''),
             (''game_url'', ''a.mc.msdca.shop''), (''api_url'', ''http://a-api.mc.msdca.shop'')]",
      unfolded s]
  from mp [OF conjunct2 [OF t] run]
  have e: "ephemeral_set ''a'' \<subseteq> objects (snd ?run)"
    and h: "route_host (snd ?run) (''servertap-'' @ ''a'' @ ''-ingress'')
              = Some (''a'' @ ''-api.'' @ GAME_DOMAIN fresh_world)"
    and i: "(PersistentVolumeClaim, ''d'') \<notin> objects fresh_world \<longrightarrow>
             (PersistentVolume, ''pv-'' @ ''d'') \<in> objects (snd ?run)
             \<and> (Job, ''create-nfs-dir-'' @ ''d'') \<in> objects (snd ?run)"
    by blast+
  from mp [OF i f (1)]
  have v: "(PersistentVolume, ''pv-d'') \<in> objects (snd ?run)"
    and j: "(Job, ''create-nfs-dir-d'') \<in> objects (snd ?run)"
    by simp_all
  from h have h': "route_host (snd ?run) ''servertap-a-ingress'' = Some ''a-api.mc.msdca.shop''"
    by (simp add: f (2))
  from run e h' v j show ?thesis by (intro conjI)
qed

section \<open>Reuse of an existing claim\<close>

lemma ensure_storage_present:
  assumes "(PersistentVolumeClaim, d) \<in> objects w"
    and "fault_at w (length (calls w)) \<noteq> Some 404"
  shows "snd (ensure_storage d cap w) = w\<lparr>calls := calls w @ [(Read, PersistentVolumeClaim, d)]\<rparr>"
    and "fault_at w (length (calls w)) = None \<Longrightarrow> fst (ensure_storage d cap w) = Inr ()"
  using assms
  by (auto simp: ensure_storage_def pvc_exists_def try_except_def and_then_def succeed_def
        raise_def respond_def Let_def split: option.splits)

lemma issued_ensure_storage_present:
  assumes "(PersistentVolumeClaim, d) \<in> objects w"
    and "fault_at w (length (calls w)) \<noteq> Some 404"
  shows "issued {(Read, PersistentVolumeClaim, d)} w (snd (ensure_storage d cap w))"
  unfolding ensure_storage_present (1) [OF assms]
  by (simp add: issued_def same_oracle_def)

lemma and_then_issued:
  assumes 1: "issued S w (snd (m w))"
    and 2: "\<And>x w1. m w = (Inr x, w1) \<Longrightarrow> issued S w1 (snd (f x w1))"
  shows "issued S w (snd (and_then m f w))"
proof -
  obtain r w1 where r: "m w = (r, w1)" by (cases "m w")
  show ?thesis
  proof (cases r)
    case (Inl e)
    with r 1 show ?thesis by (simp add: and_then_def)
  next
    case (Inr x)
    with r 1 2 [of x w1] have "issued S w (snd (f x w1))" by (auto intro: issued_trans)
    with r Inr show ?thesis by (simp add: and_then_def)
  qed
qed

lemma issued_provision_reuse:
  assumes pvc: "(PersistentVolumeClaim, sanitize_name pvc) \<in> objects w"
    and no404: "\<forall>i. fault_at w i \<noteq> Some 404"
  shows "issued (reuse_requests (sanitize_name pod) (sanitize_name pvc)) w
           (snd (create_minecraft_resources pod pvc key ml mr cl cr cap w))"
proof -
  let ?s = "sanitize_name pod" and ?d = "sanitize_name pvc"
  let ?S = "reuse_requests ?s ?d"
  have del: "Pair Delete ` ephemeral_set ?s \<subseteq> ?S" unfolding reuse_requests_def by blast
  have sh: "{(Read, shared_config), (Patch, shared_config), (Create, shared_config)} \<subseteq> ?S"
    unfolding reuse_requests_def by blast
  have c1: "(Create, ConfigMap, ''servertap-config-'' @ ?s) \<in> ?S"
    and c2: "(Create, Deployment, ?s) \<in> ?S"
    and c3: "(Create, Service, ?s @ ''-svc'') \<in> ?S"
    and c4: "(Create, Ingress, ''servertap-'' @ ?s @ ''-ingress'') \<in> ?S"
    unfolding reuse_requests_def ephemeral_set_def by blast+
  have nd: "(Delete, PersistentVolumeClaim, ?d) \<notin> ?S"
    by (auto simp: reuse_requests_def ephemeral_set_def shared_config_def)
  have fin: "issues ?S (\<lambda>w. succeed (f w) w)" for f :: "world \<Rightarrow> response"
    by (simp add: issues_def succeed_def issued_refl)
  have rest: "issues ?S
     (and_then (create_deployment ?s ?d) (\<lambda>_.
      and_then (create_service ?s) (\<lambda>_.
      and_then (create_ingress ?s) (\<lambda>_.
         (\<lambda>w. succeed
            [(''status'', ''success''),
             (''pod_name'', ?s),
             (''pvc_name'', ?d),
             (''game_url'', ?s @ ''.'' @ GAME_DOMAIN w),
             (''api_url'', ''http://'' @ ?s @ ''-api.'' @ GAME_DOMAIN w)] w)))))"
    unfolding create_deployment_def create_service_def
    by (intro issues_and_then issues_create_ingress [OF c4] issues_respond c2 c3 fin)
  have i1: "issues ?S (cleanup_ephemeral_resources ?s)" by (rule issues_cleanup [OF del])
  have i2: "issues ?S create_or_update_paper_configmap" by (rule issues_paper [OF sh])
  have i3: "issues ?S (create_servertap_configmap ?s key)"
    unfolding create_servertap_configmap_def by (rule issues_respond [OF c1])
  show ?thesis
    unfolding create_minecraft_resources_def Let_def
  proof (rule and_then_issued)
    show "issued ?S w (snd (cleanup_ephemeral_resources ?s w))"
      using i1 unfolding issues_def by blast
  next
    fix x1 w1
    assume s1: "cleanup_ephemeral_resources ?s w = (Inr x1, w1)"
    have a1: "issued ?S w w1" by (rule issuesD [OF i1 s1])
    show "issued ?S w1 (snd (and_then create_or_update_paper_configmap (\<lambda>_.
         and_then (create_servertap_configmap ?s key) (\<lambda>_.
         and_then (ensure_storage ?d cap) (\<lambda>_.
         and_then (create_deployment ?s ?d) (\<lambda>_.
         and_then (create_service ?s) (\<lambda>_.
         and_then (create_ingress ?s) (\<lambda>_.
         (\<lambda>w. succeed
            [(''status'', ''success''),
             (''pod_name'', ?s),
             (''pvc_name'', ?d),
             (''game_url'', ?s @ ''.'' @ GAME_DOMAIN w),
             (''api_url'', ''http://'' @ ?s @ ''-api.'' @ GAME_DOMAIN w)] w))))))) w1))"
    proof (rule and_then_issued)
      show "issued ?S w1 (snd (create_or_update_paper_configmap w1))"
        using i2 unfolding issues_def by blast
    next
      fix x2 w2
      assume s2: "create_or_update_paper_configmap w1 = (Inr x2, w2)"
      have a2: "issued ?S w w2" by (rule issued_trans [OF a1 issuesD [OF i2 s2]])
      show "issued ?S w2 (snd (and_then (create_servertap_configmap ?s key) (\<lambda>_.
         and_then (ensure_storage ?d cap) (\<lambda>_.
         and_then (create_deployment ?s ?d) (\<lambda>_.
         and_then (create_service ?s) (\<lambda>_.
         and_then (create_ingress ?s) (\<lambda>_.
         (\<lambda>w. succeed
            [(''status'', ''success''),
             (''pod_name'', ?s),
             (''pvc_name'', ?d),
             (''game_url'', ?s @ ''.'' @ GAME_DOMAIN w),
             (''api_url'', ''http://'' @ ?s @ ''-api.'' @ GAME_DOMAIN w)] w)))))) w2))"
      proof (rule and_then_issued)
        show "issued ?S w2 (snd (create_servertap_configmap ?s key w2))"
          using i3 unfolding issues_def by blast
      next
        fix x3 w3
        assume s3: "create_servertap_configmap ?s key w2 = (Inr x3, w3)"
        have a3: "issued ?S w w3" by (rule issued_trans [OF a2 issuesD [OF i3 s3]])
        have p3: "(PersistentVolumeClaim, ?d) \<in> objects w3"
          by (rule issued_kept [OF a3 pvc nd])
        have "fault_at w3 = fault_at w" using a3 by (simp add: issued_def same_oracle_def)
        with no404 have f3: "fault_at w3 (length (calls w3)) \<noteq> Some 404" by simp
        have "issued {(Read, PersistentVolumeClaim, ?d)} w3 (snd (ensure_storage ?d cap w3))"
          by (rule issued_ensure_storage_present [OF p3 f3])
        then have e: "issued ?S w3 (snd (ensure_storage ?d cap w3))"
          by (rule issued_mono [rotated]) (simp add: reuse_requests_def)
        show "issued ?S w3 (snd (and_then (ensure_storage ?d cap) (\<lambda>_.
         and_then (create_deployment ?s ?d) (\<lambda>_.
         and_then (create_service ?s) (\<lambda>_.
         and_then (create_ingress ?s) (\<lambda>_.
         (\<lambda>w. succeed
            [(''status'', ''success''),
             (''pod_name'', ?s),
             (''pvc_name'', ?d),
             (''game_url'', ?s @ ''.'' @ GAME_DOMAIN w),
             (''api_url'', ''http://'' @ ?s @ ''-api.'' @ GAME_DOMAIN w)] w))))) w3))"
        proof (rule and_then_issued)
          show "issued ?S w3 (snd (ensure_storage ?d cap w3))" by (rule e)
        next
          fix x4 :: unit and w4 :: world
          show "issued ?S w4 (snd (and_then (create_deployment ?s ?d) (\<lambda>_.
         and_then (create_service ?s) (\<lambda>_.
         and_then (create_ingress ?s) (\<lambda>_.
         (\<lambda>w. succeed
            [(''status'', ''success''),
             (''pod_name'', ?s),
             (''pvc_name'', ?d),
             (''game_url'', ?s @ ''.'' @ GAME_DOMAIN w),
             (''api_url'', ''http://'' @ ?s @ ''-api.'' @ GAME_DOMAIN w)] w)))) w4))"
            using rest unfolding issues_def by blast
        qed
      qed
    qed
  qed
qed

lemma storage_untouched:
  assumes "issued (reuse_requests s d) w w'"
  shows "set (new_calls w w') \<inter> storage_creations d = {}"
    and "{ob \<in> objects w'. storage_kind ob} = {ob \<in> objects w. storage_kind ob}"
proof -
  have "storage_creations d \<inter> reuse_requests s d = {}"
    by (auto simp: storage_creations_def reuse_requests_def ephemeral_set_def shared_config_def)
  with issued_new_calls [OF assms] show "set (new_calls w w') \<inter> storage_creations d = {}"
    by blast
  have "(Delete, ob) \<notin> reuse_requests s d \<and> (Create, ob) \<notin> reuse_requests s d"
    if "storage_kind ob" for ob
    using that
    by (auto simp: storage_kind_def reuse_requests_def ephemeral_set_def shared_config_def)
  with issued_kept [OF assms] issued_old [OF assms]
  show "{ob \<in> objects w'. storage_kind ob} = {ob \<in> objects w. storage_kind ob}"
    by blast
qed

text \<open>
  Claim C7. If the claim exists and the probe is answered, the storage step sends the
  probe and nothing else, and reports storage as ready. If the claim exists when a
  provisioning runs (and no request is answered with a spurious not-found), the
  provisioning sends none of the three creations of the storage step, and the durable
  volumes and claims are the same after it as before. Hence a provisioning that follows
  a successful one for the same storage identity creates no second volume or claim.
\<close>

theorem existing_claim_is_reused:
  "((PersistentVolumeClaim, d) \<in> objects w \<and> fault_at w (length (calls w)) = None \<longrightarrow>
      ensure_storage d cap w
        = (Inr (), w\<lparr>calls := calls w @ [(Read, PersistentVolumeClaim, d)]\<rparr>))
   \<and> ((PersistentVolumeClaim, sanitize_name pvc) \<in> objects w \<and> (\<forall>i. fault_at w i \<noteq> Some 404) \<longrightarrow>
        set (new_calls w (snd (create_minecraft_resources pod pvc key ml mr cl cr cap w)))
          \<inter> storage_creations (sanitize_name pvc) = {}
        \<and> {ob \<in> objects (snd (create_minecraft_resources pod pvc key ml mr cl cr cap w)).
             storage_kind ob} = {ob \<in> objects w. storage_kind ob})
   \<and> (create_minecraft_resources pod pvc key ml mr cl cr cap w = (Inr res, w1)
        \<and> (\<forall>i. fault_at w i \<noteq> Some 404) \<longrightarrow>
        set (new_calls w1 (snd (create_minecraft_resources pod2 pvc key2 ml2 mr2 cl2 cr2 cap2 w1)))
          \<inter> storage_creations (sanitize_name pvc) = {}
        \<and> {ob \<in> objects (snd (create_minecraft_resources pod2 pvc key2 ml2 mr2 cl2 cr2 cap2 w1)).
             storage_kind ob} = {ob \<in> objects w1. storage_kind ob})"
proof (intro conjI impI)
  assume a: "(PersistentVolumeClaim, d) \<in> objects w \<and> fault_at w (length (calls w)) = None"
  then have "fault_at w (length (calls w)) \<noteq> Some 404" by simp
  with a ensure_storage_present [of d w cap]
  show "ensure_storage d cap w
          = (Inr (), w\<lparr>calls := calls w @ [(Read, PersistentVolumeClaim, d)]\<rparr>)"
    by (metis prod.collapse)
next
  assume a: "(PersistentVolumeClaim, sanitize_name pvc) \<in> objects w
             \<and> (\<forall>i. fault_at w i \<noteq> Some 404)"
  then have i: "issued (reuse_requests (sanitize_name pod) (sanitize_name pvc)) w
           (snd (create_minecraft_resources pod pvc key ml mr cl cr cap w))"
    by (intro issued_provision_reuse) simp_all
  show "set (new_calls w (snd (create_minecraft_resources pod pvc key ml mr cl cr cap w)))
          \<inter> storage_creations (sanitize_name pvc) = {}"
    by (rule storage_untouched (1) [OF i])
  show "{ob \<in> objects (snd (create_minecraft_resources pod pvc key ml mr cl cr cap w)).
          storage_kind ob} = {ob \<in> objects w. storage_kind ob}"
    by (rule storage_untouched (2) [OF i])
next
  assume a: "create_minecraft_resources pod pvc key ml mr cl cr cap w = (Inr res, w1)
             \<and> (\<forall>i. fault_at w i \<noteq> Some 404)"
  then have p: "(PersistentVolumeClaim, sanitize_name pvc) \<in> objects w1"
    by (auto dest: provision_Inr (3))
  have "issued UNIV w w1"
    by (rule issuesD [OF issues_provision conjunct1 [OF a]]) simp
  then have "fault_at w1 = fault_at w" by (simp add: issued_def same_oracle_def)
  with a have n: "\<forall>i. fault_at w1 i \<noteq> Some 404" by simp
  have i: "issued (reuse_requests (sanitize_name pod2) (sanitize_name pvc)) w1
           (snd (create_minecraft_resources pod2 pvc key2 ml2 mr2 cl2 cr2 cap2 w1))"
    by (rule issued_provision_reuse [OF p n])
  show "set (new_calls w1 (snd (create_minecraft_resources pod2 pvc key2 ml2 mr2 cl2 cr2 cap2 w1)))
          \<inter> storage_creations (sanitize_name pvc) = {}"
    by (rule storage_untouched (1) [OF i])
  show "{ob \<in> objects (snd (create_minecraft_resources pod2 pvc key2 ml2 mr2 cl2 cr2 cap2 w1)).
          storage_kind ob} = {ob \<in> objects w1. storage_kind ob}"
    by (rule storage_untouched (2) [OF i])
qed

theorem existing_claim_is_reused_witness:
  "ensure_storage ''d'' ''10Gi'' claim_world
     = (Inr (), claim_world\<lparr>calls := [(Read, PersistentVolumeClaim, ''d'')]\<rparr>)
   \<and> set (new_calls claim_world
            (snd (create_minecraft_resources ''A'' ''d'' ''key'' ''3Gi'' ''3Gi'' ''2'' ''2'' ''10Gi''
                    claim_world)))
       \<inter> storage_creations ''d'' = {}
   \<and> set (new_calls
            (snd (create_minecraft_resources ''A'' ''d'' ''key'' ''3Gi'' ''3Gi'' ''2'' ''2'' ''10Gi''
                    claim_world))
            (snd (create_minecraft_resources ''B'' ''d'' ''key'' ''3Gi'' ''3Gi'' ''2'' ''2'' ''10Gi''
                    (snd (create_minecraft_resources ''A'' ''d'' ''key'' ''3Gi'' ''3Gi'' ''2'' ''2''
                            ''10Gi'' claim_world)))))
       \<inter> storage_creations ''d'' = {}"
proof -
  let ?run = "create_minecraft_resources ''A'' ''d'' ''key'' ''3Gi'' ''3Gi'' ''2'' ''2'' ''10Gi''
                claim_world"
  have "fst ?run = Inr [(''status'', ''success''), (''pod_name'', ''a''), (''pvc_name'', ''d''),
             (''game_url'', ''a.mc.msdca.shop''), (''api_url'', ''http://a-api.mc.msdca.shop'')]"
    by code_simp
  then have run: "?run = (Inr [(''status'', ''success''), (''pod_name'', ''a''),
             (''pvc_name'', ''d''), (''game_url'', ''a.mc.msdca.shop''),
             (''api_url'', ''http://a-api.mc.msdca.shop'')], snd ?run)"
    by (metis prod.collapse)
  have s: "sanitize_name ''d'' = ''d''" by code_simp
  have c: "(PersistentVolumeClaim, ''d'') \<in> objects claim_world"
    and f: "\<forall>i. fault_at claim_world i = None"
    and l: "calls claim_world = []"
    by (simp_all add: claim_world_def fresh_world_def)
  from existing_claim_is_reused [where d = "''d''" and w = claim_world and cap = "''10Gi''"
      and pvc = "''d''" and pod = "''A''" and key = "''key''" and ml = "''3Gi''"
      and mr = "''3Gi''" and cl = "''2''" and cr = "''2''" and ?w1.0 = "snd ?run"
      and ?pod2.0 = "''B''" and ?key2.0 = "''key''" and ?ml2.0 = "''3Gi''" and ?mr2.0 = "''3Gi''"
      and ?cl2.0 = "''2''" and ?cr2.0 = "''2''" and ?cap2.0 = "''10Gi''"] run s c f l
  show ?thesis by simp
qed

section \<open>Teardown\<close>

lemma issues_delete_persistent_data:
  "Pair Delete ` storage_set (sanitize_name pvc) \<subseteq> S \<Longrightarrow> issues S (delete_persistent_data pvc)"
  unfolding delete_persistent_data_def Let_def storage_set_def
  by (auto intro!: issues_and_then issues_delete_resource issues_try_except issues_respond
        issues_succeed issues_raise split: error.split)

lemma issues_cleanup_all:
  assumes "Pair Delete ` (ephemeral_set (sanitize_name pod) \<union> storage_set (sanitize_name pvc)) \<subseteq> S"
  shows "issues S (cleanup_all_resources pod pvc)"
proof -
  have 1: "Pair Delete ` ephemeral_set (sanitize_name pod) \<subseteq> S" using assms by blast
  have 2: "Pair Delete ` storage_set (sanitize_name (sanitize_name pvc)) \<subseteq> S"
    using assms by (simp add: sanitize_name_fixpoint image_Un)
  show ?thesis
    unfolding cleanup_all_resources_def Let_def
    by (intro issues_and_then issues_cleanup [OF 1] issues_delete_persistent_data [OF 2]
        issues_succeed)
qed

lemma delete_resource_quiet:
  assumes "fault_at w (length (calls w)) = None"
  shows "fst (delete_resource k n w) = Inr ()"
    and "objects (snd (delete_resource k n w)) = objects w - {(k, n)}"
    and "calls (snd (delete_resource k n w)) = calls w @ [(Delete, k, n)]"
    and "fault_at (snd (delete_resource k n w)) = fault_at w"
  using assms
  by (auto simp: delete_resource_def try_except_def respond_def Let_def succeed_def raise_def)

lemma cleanup_ephemeral_quiet:
  assumes q: "\<forall>i. length (calls w) \<le> i \<longrightarrow> fault_at w i = None"
  shows "\<exists>x. fst (cleanup_ephemeral_resources p w) = Inr x"
    and "objects (snd (cleanup_ephemeral_resources p w)) = objects w - ephemeral_set p"
    and "length (calls w) \<le> length (calls (snd (cleanup_ephemeral_resources p w)))"
    and "fault_at (snd (cleanup_ephemeral_resources p w)) = fault_at w"
    and "calls (snd (cleanup_ephemeral_resources p w))
           = calls w @ [(Delete, Deployment, p), (Delete, Service, p @ ''-svc''),
                        (Delete, Ingress, ''servertap-'' @ p @ ''-ingress''),
                        (Delete, ConfigMap, ''servertap-config-'' @ p)]"
proof -
  define w1 where "w1 = snd (delete_resource Deployment p w)"
  define w2 where "w2 = snd (delete_resource Service (p @ ''-svc'') w1)"
  define w3 where "w3 = snd (delete_resource Ingress (''servertap-'' @ p @ ''-ingress'') w2)"
  define w4 where "w4 = snd (delete_resource ConfigMap (''servertap-config-'' @ p) w3)"
  have f0: "fault_at w (length (calls w)) = None" using q by simp
  note d1 = delete_resource_quiet [OF f0, of Deployment p, folded w1_def]
  have f1: "fault_at w1 (length (calls w1)) = None" using q d1 by simp
  note d2 = delete_resource_quiet [OF f1, of Service "p @ ''-svc''", folded w2_def]
  have f2: "fault_at w2 (length (calls w2)) = None" using q d1 d2 by simp
  note d3 = delete_resource_quiet [OF f2, of Ingress "''servertap-'' @ p @ ''-ingress''",
      folded w3_def]
  have f3: "fault_at w3 (length (calls w3)) = None" using q d1 d2 d3 by simp
  note d4 = delete_resource_quiet [OF f3, of ConfigMap "''servertap-config-'' @ p",
      folded w4_def]
  have s1: "delete_resource Deployment p w = (Inr (), w1)"
    using d1 (1) by (simp add: w1_def prod_eq_iff)
  have s2: "delete_resource Service (p @ ''-svc'') w1 = (Inr (), w2)"
    using d2 (1) by (simp add: w2_def prod_eq_iff)
  have s3: "delete_resource Ingress (''servertap-'' @ p @ ''-ingress'') w2 = (Inr (), w3)"
    using d3 (1) by (simp add: w3_def prod_eq_iff)
  have s4: "delete_resource ConfigMap (''servertap-config-'' @ p) w3 = (Inr (), w4)"
    using d4 (1) by (simp add: w4_def prod_eq_iff)
  have run: "cleanup_ephemeral_resources p w =
      (Inr [(''status'', ''success''),
        (''message'', ''Server '' @ p @ '' resources cleaned up (paused).''),
        (''pod_name'', p)], w4)"
    unfolding cleanup_ephemeral_resources_def
    using s1 s2 s3 s4 by (simp add: and_then_def succeed_def)
  show "\<exists>x. fst (cleanup_ephemeral_resources p w) = Inr x" using run by simp
  show "objects (snd (cleanup_ephemeral_resources p w)) = objects w - ephemeral_set p"
    using run d1 (2) d2 (2) d3 (2) d4 (2) unfolding ephemeral_set_def by auto
  show "length (calls w) \<le> length (calls (snd (cleanup_ephemeral_resources p w)))"
    using run d1 (3) d2 (3) d3 (3) d4 (3) by simp
  show "fault_at (snd (cleanup_ephemeral_resources p w)) = fault_at w"
    using run d1 (4) d2 (4) d3 (4) d4 (4) by simp
  show "calls (snd (cleanup_ephemeral_resources p w))
           = calls w @ [(Delete, Deployment, p), (Delete, Service, p @ ''-svc''),
                        (Delete, Ingress, ''servertap-'' @ p @ ''-ingress''),
                        (Delete, ConfigMap, ''servertap-config-'' @ p)]"
    using run d1 (3) d2 (3) d3 (3) d4 (3) by simp
qed

lemma delete_persistent_data_eq:
  "delete_persistent_data pvc =
     and_then (delete_resource PersistentVolumeClaim (sanitize_name pvc))
       (\<lambda>_. delete_resource PersistentVolume (''pv-'' @ sanitize_name pvc))"
  by (simp add: delete_persistent_data_def Let_def delete_resource_def)

lemma delete_persistent_data_quiet:
  assumes q: "\<forall>i. length (calls w) \<le> i \<longrightarrow> fault_at w i = None"
  shows "fst (delete_persistent_data pvc w) = Inr ()"
    and "objects (snd (delete_persistent_data pvc w)) = objects w - storage_set (sanitize_name pvc)"
    and "calls (snd (delete_persistent_data pvc w))
           = calls w @ [(Delete, PersistentVolumeClaim, sanitize_name pvc),
                        (Delete, PersistentVolume, ''pv-'' @ sanitize_name pvc)]"
proof -
  let ?d = "sanitize_name pvc"
  define w1 where "w1 = snd (delete_resource PersistentVolumeClaim ?d w)"
  define w2 where "w2 = snd (delete_resource PersistentVolume (''pv-'' @ ?d) w1)"
  have f0: "fault_at w (length (calls w)) = None" using q by simp
  note d1 = delete_resource_quiet [OF f0, of PersistentVolumeClaim ?d, folded w1_def]
  have f1: "fault_at w1 (length (calls w1)) = None" using q d1 by simp
  note d2 = delete_resource_quiet [OF f1, of PersistentVolume "''pv-'' @ ?d", folded w2_def]
  have s1: "delete_resource PersistentVolumeClaim ?d w = (Inr (), w1)"
    using d1 (1) by (simp add: w1_def prod_eq_iff)
  have s2: "delete_resource PersistentVolume (''pv-'' @ ?d) w1 = (Inr (), w2)"
    using d2 (1) by (simp add: w2_def prod_eq_iff)
  have run: "delete_persistent_data pvc w = (Inr (), w2)"
    unfolding delete_persistent_data_eq using s1 s2 by (simp add: and_then_def)
  show "fst (delete_persistent_data pvc w) = Inr ()" using run by simp
  show "objects (snd (delete_persistent_data pvc w)) = objects w - storage_set ?d"
    using run d1 (2) d2 (2) unfolding storage_set_def by auto
  show "calls (snd (delete_persistent_data pvc w))
           = calls w @ [(Delete, PersistentVolumeClaim, ?d), (Delete, PersistentVolume, ''pv-'' @ ?d)]"
    using run d1 (3) d2 (3) by simp
qed

lemma cleanup_all_quiet:
  assumes q: "\<forall>i. length (calls w) \<le> i \<longrightarrow> fault_at w i = None"
  shows "fst (cleanup_all_resources pod pvc w)
           = Inr [(''status'', ''cleaned''), (''pod_name'', sanitize_name pod),
                  (''pvc_name'', sanitize_name pvc)]"
    and "objects (snd (cleanup_all_resources pod pvc w))
           = objects w - (ephemeral_set (sanitize_name pod) \<union> storage_set (sanitize_name pvc))"
    and "calls (snd (cleanup_all_resources pod pvc w))
           = calls w @ [(Delete, Deployment, sanitize_name pod),
                        (Delete, Service, sanitize_name pod @ ''-svc''),
                        (Delete, Ingress, ''servertap-'' @ sanitize_name pod @ ''-ingress''),
                        (Delete, ConfigMap, ''servertap-config-'' @ sanitize_name pod),
                        (Delete, PersistentVolumeClaim, sanitize_name pvc),
                        (Delete, PersistentVolume, ''pv-'' @ sanitize_name pvc)]"
proof -
  let ?s = "sanitize_name pod" and ?d = "sanitize_name pvc"
  obtain x w1 where r1: "cleanup_ephemeral_resources ?s w = (Inr x, w1)"
    using cleanup_ephemeral_quiet (1) [OF q, of ?s] by (metis prod.collapse)
  from cleanup_ephemeral_quiet (2,3,4) [OF q, of ?s] r1
  have o1: "objects w1 = objects w - ephemeral_set ?s"
    and q1: "\<forall>i. length (calls w1) \<le> i \<longrightarrow> fault_at w1 i = None"
    using q by auto
  from cleanup_ephemeral_quiet (5) [OF q, of ?s] r1
  have k1: "calls w1 = calls w @ [(Delete, Deployment, ?s), (Delete, Service, ?s @ ''-svc''),
                        (Delete, Ingress, ''servertap-'' @ ?s @ ''-ingress''),
                        (Delete, ConfigMap, ''servertap-config-'' @ ?s)]"
    by simp
  obtain w2 where r2: "delete_persistent_data ?d w1 = (Inr (), w2)"
    using delete_persistent_data_quiet (1) [OF q1, of ?d] by (metis prod.collapse)
  from delete_persistent_data_quiet (2) [OF q1, of ?d] r2
  have o2: "objects w2 = objects w1 - storage_set ?d" by (simp add: sanitize_name_fixpoint)
  from delete_persistent_data_quiet (3) [OF q1, of ?d] r2
  have k2: "calls w2 = calls w1 @ [(Delete, PersistentVolumeClaim, ?d),
                        (Delete, PersistentVolume, ''pv-'' @ ?d)]"
    by (simp add: sanitize_name_fixpoint)
  have run: "cleanup_all_resources pod pvc w
      = (Inr [(''status'', ''cleaned''), (''pod_name'', ?s), (''pvc_name'', ?d)], w2)"
    unfolding cleanup_all_resources_def Let_def using r1 r2
    by (simp add: and_then_def succeed_def)
  show "fst (cleanup_all_resources pod pvc w)
           = Inr [(''status'', ''cleaned''), (''pod_name'', ?s), (''pvc_name'', ?d)]"
    using run by simp
  show "objects (snd (cleanup_all_resources pod pvc w))
           = objects w - (ephemeral_set ?s \<union> storage_set ?d)"
    using run o1 o2 by auto
  show "calls (snd (cleanup_all_resources pod pvc w))
           = calls w @ [(Delete, Deployment, ?s), (Delete, Service, ?s @ ''-svc''),
                        (Delete, Ingress, ''servertap-'' @ ?s @ ''-ingress''),
                        (Delete, ConfigMap, ''servertap-config-'' @ ?s),
                        (Delete, PersistentVolumeClaim, ?d),
                        (Delete, PersistentVolume, ''pv-'' @ ?d)]"
    using run k1 k2 by simp
qed

lemma provision_creates:
  "{ob. (Create, ob) \<in> provision_requests s d}
     = ephemeral_set s \<union> storage_set d \<union> {(Job, ''create-nfs-dir-'' @ d), shared_config}"
  by (auto simp: provision_requests_def storage_requests_def task_requests_def storage_set_def
        shared_config_def)

text \<open>
  Claim C10, as it is stated, has teardown target exactly the resources that provisioning
  created. On a fresh cluster, provisioning \<open>My-Server\<close> with storage \<open>Data_1\<close>
  creates the directory task and the shared config object; the teardown with the same
  names sends no delete for either, and both are still there after it. On a cluster that
  already holds the claim \<open>d\<close>, provisioning does not create the claim, and teardown
  deletes it.
\<close>

theorem teardown_targets_counterexample:
  "(Create, Job, ''create-nfs-dir-data1'')
     \<in> set (new_calls fresh_world
              (snd (create_minecraft_resources ''My-Server'' ''Data_1'' ''key'' ''3Gi'' ''3Gi''
                      ''2'' ''2'' ''10Gi'' fresh_world)))
   \<and> (Create, ConfigMap, ''paper-global-config'')
     \<in> set (new_calls fresh_world
              (snd (create_minecraft_resources ''My-Server'' ''Data_1'' ''key'' ''3Gi'' ''3Gi''
                      ''2'' ''2'' ''10Gi'' fresh_world)))
   \<and> new_calls
         (snd (create_minecraft_resources ''My-Server'' ''Data_1'' ''key'' ''3Gi'' ''3Gi''
                 ''2'' ''2'' ''10Gi'' fresh_world))
         (snd (cleanup_all_resources ''My-Server'' ''Data_1''
                 (snd (create_minecraft_resources ''My-Server'' ''Data_1'' ''key'' ''3Gi''
                         ''3Gi'' ''2'' ''2'' ''10Gi'' fresh_world))))
       = [(Delete, Deployment, ''my-server''), (Delete, Service, ''my-server-svc''),
          (Delete, Ingress, ''servertap-my-server-ingress''),
          (Delete, ConfigMap, ''servertap-config-my-server''),
          (Delete, PersistentVolumeClaim, ''data1''), (Delete, PersistentVolume, ''pv-data1'')]
   \<and> objects
         (snd (cleanup_all_resources ''My-Server'' ''Data_1''
                 (snd (create_minecraft_resources ''My-Server'' ''Data_1'' ''key'' ''3Gi''
                         ''3Gi'' ''2'' ''2'' ''10Gi'' fresh_world))))
       = {(Job, ''create-nfs-dir-data1''), (ConfigMap, ''paper-global-config'')}
   \<and> (Create, PersistentVolumeClaim, ''d'')
     \<notin> set (new_calls claim_world
              (snd (create_minecraft_resources ''A'' ''d'' ''key'' ''3Gi'' ''3Gi'' ''2'' ''2''
                      ''10Gi'' claim_world)))
   \<and> (Delete, PersistentVolumeClaim, ''d'')
     \<in> set (new_calls
              (snd (create_minecraft_resources ''A'' ''d'' ''key'' ''3Gi'' ''3Gi'' ''2'' ''2''
                      ''10Gi'' claim_world))
              (snd (cleanup_all_resources ''A'' ''d''
                      (snd (create_minecraft_resources ''A'' ''d'' ''key'' ''3Gi'' ''3Gi'' ''2''
                              ''2'' ''10Gi'' claim_world)))))"
  by code_simp


text \<open>
  Claim C10, amended. Full teardown and data deletion normalize the names they are given
  with \<open>sanitize_name\<close>, as provisioning does. With \<open>s\<close> and \<open>d\<close> the normalized
  names, full teardown sends only deletes of the workload, network endpoint, route and
  per-server config object of \<open>s\<close> and of the claim \<open>d\<close> and the volume \<open>pv-<d>\<close>,
  and data deletion only deletes of the claim and the volume; when no request fails they
  send exactly these deletes, in this order, and exactly these resources are removed.
  These are the names provisioning creates under: after a successful provisioning with
  the same raw names the four resources of \<open>s\<close> and the claim exist, the volume too if
  the claim did not exist before, and whatever else the provisioning added is the
  directory task or the shared config object, which teardown does not target. So after a
  teardown in which no request fails, only these two can be left of what the
  provisioning added.
\<close>

theorem teardown_targets_provisioned_names:
  "set (new_calls w (snd (cleanup_all_resources pod pvc w)))
     \<subseteq> Pair Delete ` (ephemeral_set (sanitize_name pod) \<union> storage_set (sanitize_name pvc))
   \<and> set (new_calls w (snd (delete_persistent_data pvc w)))
     \<subseteq> Pair Delete ` storage_set (sanitize_name pvc)
   \<and> ((\<forall>i. length (calls w) \<le> i \<longrightarrow> fault_at w i = None) \<longrightarrow>
        new_calls w (snd (cleanup_all_resources pod pvc w))
          = [(Delete, Deployment, sanitize_name pod),
             (Delete, Service, sanitize_name pod @ ''-svc''),
             (Delete, Ingress, ''servertap-'' @ sanitize_name pod @ ''-ingress''),
             (Delete, ConfigMap, ''servertap-config-'' @ sanitize_name pod),
             (Delete, PersistentVolumeClaim, sanitize_name pvc),
             (Delete, PersistentVolume, ''pv-'' @ sanitize_name pvc)]
        \<and> objects (snd (cleanup_all_resources pod pvc w))
          = objects w - (ephemeral_set (sanitize_name pod) \<union> storage_set (sanitize_name pvc))
        \<and> new_calls w (snd (delete_persistent_data pvc w))
          = [(Delete, PersistentVolumeClaim, sanitize_name pvc),
             (Delete, PersistentVolume, ''pv-'' @ sanitize_name pvc)]
        \<and> objects (snd (delete_persistent_data pvc w))
          = objects w - storage_set (sanitize_name pvc))
   \<and> (create_minecraft_resources pod pvc key ml mr cl cr cap w0 = (Inr res, w) \<longrightarrow>
        ephemeral_set (sanitize_name pod) \<subseteq> objects w
        \<and> (PersistentVolumeClaim, sanitize_name pvc) \<in> objects w
        \<and> ((PersistentVolumeClaim, sanitize_name pvc) \<notin> objects w0 \<longrightarrow>
             storage_set (sanitize_name pvc) \<subseteq> objects w)
        \<and> objects w - objects w0
            \<subseteq> ephemeral_set (sanitize_name pod) \<union> storage_set (sanitize_name pvc)
              \<union> {(Job, ''create-nfs-dir-'' @ sanitize_name pvc), shared_config}
        \<and> ((\<forall>i. length (calls w) \<le> i \<longrightarrow> fault_at w i = None) \<longrightarrow>
             objects (snd (cleanup_all_resources pod pvc w)) - objects w0
               \<subseteq> {(Job, ''create-nfs-dir-'' @ sanitize_name pvc), shared_config}))"
proof (intro conjI impI)
  show "set (new_calls w (snd (cleanup_all_resources pod pvc w)))
     \<subseteq> Pair Delete ` (ephemeral_set (sanitize_name pod) \<union> storage_set (sanitize_name pvc))"
    using issues_cleanup_all [OF subset_refl, of pod pvc]
    unfolding issues_def by (blast dest: issued_new_calls)
  show "set (new_calls w (snd (delete_persistent_data pvc w)))
     \<subseteq> Pair Delete ` storage_set (sanitize_name pvc)"
    using issues_delete_persistent_data [OF subset_refl, of pvc]
    unfolding issues_def by (blast dest: issued_new_calls)
next
  assume q: "\<forall>i. length (calls w) \<le> i \<longrightarrow> fault_at w i = None"
  show "new_calls w (snd (cleanup_all_resources pod pvc w))
          = [(Delete, Deployment, sanitize_name pod),
             (Delete, Service, sanitize_name pod @ ''-svc''),
             (Delete, Ingress, ''servertap-'' @ sanitize_name pod @ ''-ingress''),
             (Delete, ConfigMap, ''servertap-config-'' @ sanitize_name pod),
             (Delete, PersistentVolumeClaim, sanitize_name pvc),
             (Delete, PersistentVolume, ''pv-'' @ sanitize_name pvc)]"
    unfolding new_calls_def cleanup_all_quiet (3) [OF q] by simp
  show "objects (snd (cleanup_all_resources pod pvc w))
          = objects w - (ephemeral_set (sanitize_name pod) \<union> storage_set (sanitize_name pvc))"
    by (rule cleanup_all_quiet (2) [OF q])
  show "new_calls w (snd (delete_persistent_data pvc w))
          = [(Delete, PersistentVolumeClaim, sanitize_name pvc),
             (Delete, PersistentVolume, ''pv-'' @ sanitize_name pvc)]"
    unfolding new_calls_def delete_persistent_data_quiet (3) [OF q] by simp
  show "objects (snd (delete_persistent_data pvc w)) = objects w - storage_set (sanitize_name pvc)"
    by (rule delete_persistent_data_quiet (2) [OF q])
next
  assume ok: "create_minecraft_resources pod pvc key ml mr cl cr cap w0 = (Inr res, w)"
  let ?S = "provision_requests (sanitize_name pod) (sanitize_name pvc)"
  show e: "ephemeral_set (sanitize_name pod) \<subseteq> objects w"
    by (rule provision_Inr (2) [OF ok])
  show c: "(PersistentVolumeClaim, sanitize_name pvc) \<in> objects w"
    by (rule provision_Inr (3) [OF ok])
  have i: "issued ?S w0 w"
    by (rule issuesD [OF issues_provision ok]) simp
  then have "objects w - objects w0 \<subseteq> {ob. (Create, ob) \<in> ?S}"
    unfolding issued_def by blast
  then show d: "objects w - objects w0
            \<subseteq> ephemeral_set (sanitize_name pod) \<union> storage_set (sanitize_name pvc)
              \<union> {(Job, ''create-nfs-dir-'' @ sanitize_name pvc), shared_config}"
    unfolding provision_creates .
  {
    assume "(PersistentVolumeClaim, sanitize_name pvc) \<notin> objects w0"
    from provision_Inr_fresh (2) [OF ok this] c
    show "storage_set (sanitize_name pvc) \<subseteq> objects w"
      unfolding storage_set_def by blast
  }
  {
    assume q: "\<forall>i. length (calls w) \<le> i \<longrightarrow> fault_at w i = None"
    show "objects (snd (cleanup_all_resources pod pvc w)) - objects w0
               \<subseteq> {(Job, ''create-nfs-dir-'' @ sanitize_name pvc), shared_config}"
      unfolding cleanup_all_quiet (2) [OF q] using d by blast
  }
qed

theorem teardown_targets_provisioned_names_witness:
  "new_calls
     (snd (create_minecraft_resources ''My-Server'' ''Data_1'' ''key'' ''3Gi'' ''3Gi'' ''2'' ''2''
             ''10Gi'' fresh_world))
     (snd (cleanup_all_resources ''My-Server'' ''Data_1''
             (snd (create_minecraft_resources ''My-Server'' ''Data_1'' ''key'' ''3Gi'' ''3Gi''
                     ''2'' ''2'' ''10Gi'' fresh_world))))
     = [(Delete, Deployment, ''my-server''),
        (Delete, Service, ''my-server'' @ ''-svc''),
        (Delete, Ingress, ''servertap-'' @ ''my-server'' @ ''-ingress''),
        (Delete, ConfigMap, ''servertap-config-'' @ ''my-server''),
        (Delete, PersistentVolumeClaim, ''data1''),
        (Delete, PersistentVolume, ''pv-'' @ ''data1'')]
   \<and> storage_set ''data1''
       \<subseteq> objects (snd (create_minecraft_resources ''My-Server'' ''Data_1'' ''key'' ''3Gi''
                          ''3Gi'' ''2'' ''2'' ''10Gi'' fresh_world))
   \<and> objects (snd (cleanup_all_resources ''My-Server'' ''Data_1''
                      (snd (create_minecraft_resources ''My-Server'' ''Data_1'' ''key'' ''3Gi''
                              ''3Gi'' ''2'' ''2'' ''10Gi'' fresh_world))))
       - objects fresh_world
     \<subseteq> {(Job, ''create-nfs-dir-'' @ ''data1''), shared_config}"
proof -
  let ?run = "create_minecraft_resources ''My-Server'' ''Data_1'' ''key'' ''3Gi'' ''3Gi'' ''2''
                ''2'' ''10Gi'' fresh_world"
  let ?res = "[(''status'', ''success''), (''pod_name'', ''my-server''),
             (''pvc_name'', ''data1''), (''game_url'', ''my-server.mc.msdca.shop''),
             (''api_url'', ''http://my-server-api.mc.msdca.shop'')]"
  have "fst ?run = Inr ?res" by code_simp
  then have run: "?run = (Inr ?res, snd ?run)" by (metis prod.collapse)
  have s: "sanitize_name ''Data_1'' = ''data1''" "sanitize_name ''My-Server'' = ''my-server''"
    by code_simp+
  have "issued UNIV fresh_world (snd ?run)"
    by (rule issuesD [OF issues_provision run]) simp
  then have "fault_at (snd ?run) = fault_at fresh_world"
    by (simp add: issued_def same_oracle_def)
  then have q: "\<forall>i. length (calls (snd ?run)) \<le> i \<longrightarrow> fault_at (snd ?run) i = None"
    by (simp add: fresh_world_def)
  have f: "(PersistentVolumeClaim, ''data1'') \<notin> objects fresh_world"
    by (simp add: fresh_world_def)
  note t = teardown_targets_provisioned_names [where w = "snd ?run" and ?w0.0 = fresh_world
      and pod = "''My-Server''" and pvc = "''Data_1''" and key = "''key''" and ml = "''3Gi''"
      and mr = "''3Gi''" and cl = "''2''" and cr = "''2''" and cap = "''10Gi''" and res = ?res,
      unfolded s]
  from t have c: "(\<forall>i. length (calls (snd ?run)) \<le> i \<longrightarrow> fault_at (snd ?run) i = None) \<longrightarrow>
        new_calls (snd ?run) (snd (cleanup_all_resources ''My-Server'' ''Data_1'' (snd ?run)))
          = [(Delete, Deployment, ''my-server''),
             (Delete, Service, ''my-server'' @ ''-svc''),
             (Delete, Ingress, ''servertap-'' @ ''my-server'' @ ''-ingress''),
             (Delete, ConfigMap, ''servertap-config-'' @ ''my-server''),
             (Delete, PersistentVolumeClaim, ''data1''),
             (Delete, PersistentVolume, ''pv-'' @ ''data1'')]
        \<and> objects (snd (cleanup_all_resources ''My-Server'' ''Data_1'' (snd ?run)))
          = objects (snd ?run) - (ephemeral_set ''my-server'' \<union> storage_set ''data1'')
        \<and> new_calls (snd ?run) (snd (delete_persistent_data ''Data_1'' (snd ?run)))
          = [(Delete, PersistentVolumeClaim, ''data1''),
             (Delete, PersistentVolume, ''pv-'' @ ''data1'')]
        \<and> objects (snd (delete_persistent_data ''Data_1'' (snd ?run)))
          = objects (snd ?run) - storage_set ''data1''"
    by (elim conjE)
  from t have d: "?run = (Inr ?res, snd ?run) \<longrightarrow>
        ephemeral_set ''my-server'' \<subseteq> objects (snd ?run)
        \<and> (PersistentVolumeClaim, ''data1'') \<in> objects (snd ?run)
        \<and> ((PersistentVolumeClaim, ''data1'') \<notin> objects fresh_world \<longrightarrow>
             storage_set ''data1'' \<subseteq> objects (snd ?run))
        \<and> objects (snd ?run) - objects fresh_world
            \<subseteq> ephemeral_set ''my-server'' \<union> storage_set ''data1''
              \<union> {(Job, ''create-nfs-dir-'' @ ''data1''), shared_config}
        \<and> ((\<forall>i. length (calls (snd ?run)) \<le> i \<longrightarrow> fault_at (snd ?run) i = None) \<longrightarrow>
             objects (snd (cleanup_all_resources ''My-Server'' ''Data_1'' (snd ?run)))
               - objects fresh_world
               \<subseteq> {(Job, ''create-nfs-dir-'' @ ''data1''), shared_config})"
    by (elim conjE)
  note c' = mp [OF c q] and d' = mp [OF d run]
  from c' have 1: "new_calls (snd ?run) (snd (cleanup_all_resources ''My-Server'' ''Data_1'' (snd ?run)))
          = [(Delete, Deployment, ''my-server''),
             (Delete, Service, ''my-server'' @ ''-svc''),
             (Delete, Ingress, ''servertap-'' @ ''my-server'' @ ''-ingress''),
             (Delete, ConfigMap, ''servertap-config-'' @ ''my-server''),
             (Delete, PersistentVolumeClaim, ''data1''),
             (Delete, PersistentVolume, ''pv-'' @ ''data1'')]"
    by (rule conjunct1)
  from d' f have 2: "storage_set ''data1'' \<subseteq> objects (snd ?run)" by blast
  from d' q have 3: "objects (snd (cleanup_all_resources ''My-Server'' ''Data_1'' (snd ?run)))
               - objects fresh_world
               \<subseteq> {(Job, ''create-nfs-dir-'' @ ''data1''), shared_config}"
    by blast
  from 1 2 3 show ?thesis by (intro conjI)
qed

section \<open>The waits\<close>


lemma after_wait_fields [simp]:
  "calls (after_wait w req p s) = calls w @ replicate p req"
  "now (after_wait w req p s) = now w + 2 * int s"
  "objects (after_wait w req p s) = objects w"
  "fault_at (after_wait w req p s) = fault_at w"
  "bound_at (after_wait w req p s) = bound_at w"
  "job_at (after_wait w req p s) = job_at w"
  "pods_at (after_wait w req p s) = pods_at w"
  by (simp_all add: after_wait_def)










section \<open>The shared config object under two requests\<close>

text \<open>A thread that runs alone does what the function does.\<close>

lemma cm_steps_alone:
  "cm_step (fst (cm_step (fst (cm_step AtRead w)) (snd (cm_step AtRead w))))
     (snd (cm_step (fst (cm_step AtRead w)) (snd (cm_step AtRead w))))
   = (Returned (fst (create_or_update_paper_configmap w)),
      snd (create_or_update_paper_configmap w))"
  by (auto simp: cm_step_def create_or_update_paper_configmap_def Let_def try_except_def
        and_then_def raise_def split: prod.splits sum.splits error.splits if_splits)

lemma lock_never_taken: "configmap_lock (run_schedule schedule s) = configmap_lock s"
  unfolding run_schedule_def
  by (induction schedule arbitrary: s) (auto simp: sys_step_def split: prod.split)


end
